theory Spec2Isabelle
  imports Main
begin

section \<open>Filter primitives of the filter bar (src/unnamed/part\_000, ui/legacy/FilterBar.ts)\<close>

text \<open>
  A JavaScript exception is a value of \<open>error\<close>; a method that can throw returns
  \<open>error + 'a\<close> with \<open>Inl\<close> for the exception.
\<close>

datatype error = TypeError | Error string

datatype FilterUIEvents = FILTER_CHANGED

datatype FilterBarEvents = CHANGED

subsection \<open>NamedBitSetFilterUI\<close>

text \<open>
  \<open>interface Item\<close>: \<open>label\<close> is a nullary function in the source; the model keeps
  the string it returns.
\<close>

record Item =
  name :: string
  label :: string
  title :: "string option"
  jslogContext :: string

text \<open>
  One \<open>span\<close> created by \<open>addBit\<close>. The source keeps the type name of an element in
  the WeakMap \<open>typeFilterElementTypeNames\<close>, keyed by the element; here it is the field
  \<open>typeName\<close> of the element. \<open>selected\<close> is the class \<open>selected\<close> of the element
  (and its \<open>aria-selected\<close>, always set together).
\<close>

record TypeFilterElement =
  typeName :: string
  textChild :: string
  elemTitle :: "string option"
  tabIndex :: int
  selected :: bool

text \<open>
  The value of a \<open>Setting<Record<string, boolean>>\<close>: a plain JavaScript object, given
  by its own properties, a map from keys to booleans. Its prototype is
  \<open>Object.prototype\<close>, so a key that is not an own property but names a property of
  \<open>Object.prototype\<close> reads as that property, a function or (for \<open>__proto__\<close>) the
  prototype object: a truthy value.
\<close>

type_synonym SettingRecord = "string \<rightharpoonup> bool"

definition objectPrototypeNames :: "string set" where
  "objectPrototypeNames =
     {''constructor'', ''hasOwnProperty'', ''isPrototypeOf'', ''propertyIsEnumerable'',
      ''toLocaleString'', ''toString'', ''valueOf'', ''__proto__'',
      ''__defineGetter__'', ''__defineSetter__'', ''__lookupGetter__'', ''__lookupSetter__''}"

text \<open>
  Whether \<open>record[key]\<close> is truthy: the own property when there is one, otherwise the
  inherited one when \<open>Object.prototype\<close> has the key, otherwise \<open>undefined\<close>.
\<close>

definition readTruthy :: "SettingRecord \<Rightarrow> string \<Rightarrow> bool" where
  "readTruthy r key =
     (case r key of
        Some b \<Rightarrow> b
      | None \<Rightarrow> key \<in> objectPrototypeNames)"

text \<open>
  The fields of the class. \<open>setting\<close> is \<open>None\<close> when the filter was built without a
  setting, and otherwise holds the current value of the setting object.
  \<open>dispatched\<close> is the log of \<open>dispatchEventToListeners\<close> calls of the filter.
\<close>

record NamedBitSetFilterUI =
  typeFilterElements :: "TypeFilterElement list"
  allowedTypes :: "string set"
  setting :: "SettingRecord option"
  dispatched :: "FilterUIEvents list"

definition ALL_TYPES :: string where
  "ALL_TYPES = ''all''"

definition allStrings :: string where
  "allStrings = ''All''"

definition isActive :: "NamedBitSetFilterUI \<Rightarrow> bool" where
  "isActive s = (ALL_TYPES \<notin> allowedTypes s)"

definition accept :: "NamedBitSetFilterUI \<Rightarrow> string \<Rightarrow> bool" where
  "accept s tn = (ALL_TYPES \<in> allowedTypes s \<or> tn \<in> allowedTypes s)"

text \<open>
  \<open>update\<close>: an empty set, or one holding \<open>ALL_TYPES\<close>, is replaced by the set of
  \<open>ALL_TYPES\<close> alone; then every element gets its \<open>selected\<close> class from the set
  (\<open>typeName || ''\<close> is the type name itself: every element has one), and one
  \<open>FILTER_CHANGED\<close> is dispatched.
\<close>

definition update :: "NamedBitSetFilterUI \<Rightarrow> NamedBitSetFilterUI" where
  "update s =
     (let a = (if allowedTypes s = {} \<or> ALL_TYPES \<in> allowedTypes s
               then insert ALL_TYPES {} else allowedTypes s)
      in s\<lparr>typeFilterElements :=
              map (\<lambda>element. element\<lparr>selected := (typeName element \<in> a)\<rparr>) (typeFilterElements s),
            allowedTypes := a,
            dispatched := dispatched s @ [FILTER_CHANGED]\<rparr>)"

text \<open>
  The loop of \<open>settingChanged\<close> over \<open>typeFilterElements\<close>: a type name is added when it
  is truthy (not the empty string) and \<open>allowedTypesFromSetting[typeName]\<close> is truthy.
\<close>

fun allowedFromSetting :: "SettingRecord \<Rightarrow> TypeFilterElement list \<Rightarrow> string set \<Rightarrow> string set" where
  "allowedFromSetting allowedTypesFromSetting [] acc = acc"
| "allowedFromSetting allowedTypesFromSetting (element # rest) acc =
     allowedFromSetting allowedTypesFromSetting rest
       (if typeName element \<noteq> [] \<and> readTruthy allowedTypesFromSetting (typeName element)
        then insert (typeName element) acc else acc)"

text \<open>
  \<open>settingChanged\<close> reads \<open>this.setting\<close> through a cast: without a setting the call
  \<open>.get()\<close> on \<open>undefined\<close> throws a TypeError.
\<close>

definition settingChanged :: "NamedBitSetFilterUI \<Rightarrow> error + NamedBitSetFilterUI" where
  "settingChanged s =
     (case setting s of
        None \<Rightarrow> Inl TypeError
      | Some allowedTypesFromSetting \<Rightarrow>
          Inr (update (s\<lparr>allowedTypes :=
                 allowedFromSetting allowedTypesFromSetting (typeFilterElements s) {}\<rparr>)))"

text \<open>
  Modelled from the spec: \<open>Common.Settings.Setting\<close> is not under src/. The spec
  describes the settings store as "get/set boolean and keyed-boolean values with change
  notification": \<open>set\<close> stores the value and notifies the change listeners, and the
  listener that the filter registered in its constructor is \<open>settingChanged\<close>.
\<close>

definition Setting_set :: "SettingRecord \<Rightarrow> NamedBitSetFilterUI \<Rightarrow> error + NamedBitSetFilterUI" where
  "Setting_set v s = settingChanged (s\<lparr>setting := Some v\<rparr>)"

text \<open>
  The object \<open>updatedSetting\<close> that \<open>toggleTypeFilter\<close> builds from the set, starting
  from \<open>{}\<close>: every member becomes an own property with the value \<open>true\<close>, except
  \<open>__proto__\<close>, where the assignment of a boolean goes to the setter of
  \<open>Object.prototype\<close> and creates nothing.
\<close>

definition updatedSetting :: "string set \<Rightarrow> SettingRecord" where
  "updatedSetting a = (\<lambda>t. if t \<in> a \<and> t \<noteq> ''__proto__'' then Some True else None)"

text \<open>
  The three steps of \<open>toggleTypeFilter\<close> on the set: with multi-select on a type other
  than \<open>ALL_TYPES\<close> only \<open>ALL_TYPES\<close> is deleted, otherwise the set starts empty; the
  type is deleted when present and added when absent; an empty result gets \<open>ALL_TYPES\<close>.
\<close>

definition toggledTypes :: "string \<Rightarrow> bool \<Rightarrow> string set \<Rightarrow> string set" where
  "toggledTypes tn allowMultiSelect a =
     (let a1 = (if allowMultiSelect \<and> tn \<noteq> ALL_TYPES then a - {ALL_TYPES} else {});
          a2 = (if tn \<in> a1 then a1 - {tn} else insert tn a1)
      in if a2 = {} then insert ALL_TYPES a2 else a2)"

definition toggleTypeFilter :: "string \<Rightarrow> bool \<Rightarrow> NamedBitSetFilterUI \<Rightarrow> error + NamedBitSetFilterUI" where
  "toggleTypeFilter tn allowMultiSelect s =
     (let s' = s\<lparr>allowedTypes := toggledTypes tn allowMultiSelect (allowedTypes s)\<rparr>
      in case setting s' of
           Some _ \<Rightarrow> Setting_set (updatedSetting (allowedTypes s')) s'
         | None \<Rightarrow> Inr (update s'))"

definition reset :: "NamedBitSetFilterUI \<Rightarrow> error + NamedBitSetFilterUI" where
  "reset s = toggleTypeFilter ALL_TYPES False s"

text \<open>
  \<open>addBit\<close> creates the element with tab index \<open>- 1\<close> and pushes it; the title is set
  only when it is truthy (given and not the empty string).
\<close>

definition addBit :: "string \<Rightarrow> string \<Rightarrow> string \<Rightarrow> string option \<Rightarrow> NamedBitSetFilterUI \<Rightarrow> NamedBitSetFilterUI" where
  "addBit nm lbl jslog ttl s =
     s\<lparr>typeFilterElements := typeFilterElements s @
         [\<lparr>typeName = nm, textChild = lbl,
           elemTitle = (case ttl of None \<Rightarrow> None | Some t \<Rightarrow> if t \<noteq> [] then Some t else None),
           tabIndex = - 1, selected = False\<rparr>]\<rparr>"

fun addBits :: "Item list \<Rightarrow> NamedBitSetFilterUI \<Rightarrow> NamedBitSetFilterUI" where
  "addBits [] s = s"
| "addBits (item # items) s =
     addBits items (addBit (name item) (label item) (jslogContext item) (title item) s)"

text \<open>
  The constructor: the bit of \<open>ALL_TYPES\<close> first, with tab index 0, then one bit per
  item; with a setting the state is read from it, without one \<open>ALL_TYPES\<close> is selected.
\<close>

definition new_NamedBitSetFilterUI :: "Item list \<Rightarrow> SettingRecord option \<Rightarrow> error + NamedBitSetFilterUI" where
  "new_NamedBitSetFilterUI items st =
     (let s0 = \<lparr>typeFilterElements = [], allowedTypes = {}, setting = None, dispatched = []\<rparr>;
          s1 = addBit ALL_TYPES allStrings ALL_TYPES None s0;
          s2 = s1\<lparr>typeFilterElements :=
                 (typeFilterElements s1)[0 := (typeFilterElements s1 ! 0)\<lparr>tabIndex := 0\<rparr>]\<rparr>;
          s3 = addBits items s2
      in case st of
           Some v \<Rightarrow> settingChanged (s3\<lparr>setting := Some v\<rparr>)
         | None \<Rightarrow> toggleTypeFilter ALL_TYPES False s3)"

text \<open>
  The event a bit receives. \<open>target\<close> is the clicked element (\<open>None\<close>: no target); the
  handlers are attached to the bits only, so a target is a bit and has a type name.
\<close>

record KeyboardEvent =
  metaKey :: bool
  ctrlKey :: bool
  altKey :: bool
  shiftKey :: bool
  target :: "TypeFilterElement option"

text \<open>\<open>isMac\<close> is the result of \<open>Host.Platform.isMac()\<close>.\<close>

definition multiSelectToggle :: "bool \<Rightarrow> KeyboardEvent \<Rightarrow> bool" where
  "multiSelectToggle isMac e =
     (if isMac then metaKey e \<and> \<not> ctrlKey e \<and> \<not> altKey e \<and> \<not> shiftKey e
      else ctrlKey e \<and> \<not> metaKey e \<and> \<not> altKey e \<and> \<not> shiftKey e)"

definition onTypeFilterClicked :: "bool \<Rightarrow> KeyboardEvent \<Rightarrow> NamedBitSetFilterUI \<Rightarrow> error + NamedBitSetFilterUI" where
  "onTypeFilterClicked isMac e s =
     (let toggle = multiSelectToggle isMac e
      in case target e of
           Some element \<Rightarrow> toggleTypeFilter (typeName element) toggle s
         | None \<Rightarrow> Inr s)"

text \<open>Concrete filters used to evaluate the definitions.\<close>

definition item_a :: Item where
  "item_a = \<lparr>name = ''a'', label = ''A'', title = None, jslogContext = ''a''\<rparr>"

definition item_b :: Item where
  "item_b = \<lparr>name = ''b'', label = ''B'', title = None, jslogContext = ''b''\<rparr>"

definition filterBit :: "string \<Rightarrow> string \<Rightarrow> int \<Rightarrow> bool \<Rightarrow> TypeFilterElement" where
  "filterBit nm lbl ti sel = \<lparr>typeName = nm, textChild = lbl, elemTitle = None, tabIndex = ti, selected = sel\<rparr>"

definition filter_ab :: "string set \<Rightarrow> bool \<Rightarrow> bool \<Rightarrow> bool \<Rightarrow> SettingRecord option \<Rightarrow> nat \<Rightarrow> NamedBitSetFilterUI" where
  "filter_ab a sAll sA sB st n =
     \<lparr>typeFilterElements = [filterBit ''all'' ''All'' 0 sAll, filterBit ''a'' ''A'' (- 1) sA, filterBit ''b'' ''B'' (- 1) sB],
      allowedTypes = a, setting = st, dispatched = replicate n FILTER_CHANGED\<rparr>"

text \<open>A filter with the bit of \<open>ALL_TYPES\<close> and bits for the types \<open>a\<close> and
  \<open>constructor\<close>.\<close>

definition item_ctor :: Item where
  "item_ctor = \<lparr>name = ''constructor'', label = ''Ctor'', title = None, jslogContext = ''ctor''\<rparr>"

definition filter_ctor :: "string set \<Rightarrow> bool \<Rightarrow> bool \<Rightarrow> bool \<Rightarrow> SettingRecord option \<Rightarrow> nat \<Rightarrow> NamedBitSetFilterUI" where
  "filter_ctor a sAll sA sC st n =
     \<lparr>typeFilterElements = [filterBit ''all'' ''All'' 0 sAll, filterBit ''a'' ''A'' (- 1) sA,
                            filterBit ''constructor'' ''Ctor'' (- 1) sC],
      allowedTypes = a, setting = st, dispatched = replicate n FILTER_CHANGED\<rparr>"

definition click :: "TypeFilterElement \<Rightarrow> bool \<Rightarrow> KeyboardEvent" where
  "click element ctrl =
     \<lparr>metaKey = False, ctrlKey = ctrl, altKey = False, shiftKey = False, target = Some element\<rparr>"

subsection \<open>CheckboxFilterUI\<close>

text \<open>
  \<open>CheckboxLabel\<close> (UIUtils) is not under src/: the model keeps the state the filter
  reads and writes, the \<open>checked\<close> property, and what the label was created with.
\<close>

record CheckboxLabel =
  checkboxTitle :: string
  checked :: bool
  checkboxJslogContext :: "string option"

record CheckboxFilterUI =
  activeWhenChecked :: bool
  checkbox :: CheckboxLabel
  checkboxDispatched :: "FilterUIEvents list"

text \<open>
  \<open>Boolean(x)\<close> for an optional boolean: \<open>undefined\<close> (an omitted argument, \<open>None\<close>)
  and \<open>false\<close> give \<open>false\<close>.
\<close>

definition Boolean :: "bool option \<Rightarrow> bool" where
  "Boolean x = (case x of None \<Rightarrow> False | Some b \<Rightarrow> b)"

text \<open>
  The constructor. \<open>CheckboxLabel.create\<close> and \<open>bindCheckbox\<close> (SettingsUI) are not
  under src/ and are parameters: \<open>create\<close> takes the title, the two \<open>undefined\<close>
  arguments and the jslog context; \<open>bindCheckbox\<close> takes the label and the value of the
  boolean setting and returns the label bound to it. Without a setting the checkbox
  starts checked.
\<close>

definition new_CheckboxFilterUI ::
  "(string \<Rightarrow> bool option \<Rightarrow> string option \<Rightarrow> string option \<Rightarrow> CheckboxLabel) \<Rightarrow>
   (CheckboxLabel \<Rightarrow> bool \<Rightarrow> CheckboxLabel) \<Rightarrow>
   string \<Rightarrow> bool option \<Rightarrow> bool option \<Rightarrow> string option \<Rightarrow> CheckboxFilterUI" where
  "new_CheckboxFilterUI create bindCheckbox ttl activeWhenChecked_arg setting_arg jslog =
     (let c = create ttl None None jslog
      in \<lparr>activeWhenChecked = Boolean activeWhenChecked_arg,
          checkbox = (case setting_arg of
                        Some v \<Rightarrow> bindCheckbox c v
                      | None \<Rightarrow> c\<lparr>checked := True\<rparr>),
          checkboxDispatched = []\<rparr>)"

definition CheckboxFilterUI_isActive :: "CheckboxFilterUI \<Rightarrow> bool" where
  "CheckboxFilterUI_isActive f = (activeWhenChecked f = checked (checkbox f))"

definition CheckboxFilterUI_checked :: "CheckboxFilterUI \<Rightarrow> bool" where
  "CheckboxFilterUI_checked f = checked (checkbox f)"

definition setChecked :: "bool \<Rightarrow> CheckboxFilterUI \<Rightarrow> CheckboxFilterUI" where
  "setChecked c f = f\<lparr>checkbox := (checkbox f)\<lparr>checked := c\<rparr>\<rparr>"

definition fireUpdated :: "CheckboxFilterUI \<Rightarrow> CheckboxFilterUI" where
  "fireUpdated f = f\<lparr>checkboxDispatched := checkboxDispatched f @ [FILTER_CHANGED]\<rparr>"

text \<open>Labels used to evaluate the constructor.\<close>

definition plainLabel :: "string \<Rightarrow> bool option \<Rightarrow> string option \<Rightarrow> string option \<Rightarrow> CheckboxLabel" where
  "plainLabel ttl c sub jslog = \<lparr>checkboxTitle = ttl, checked = Boolean c, checkboxJslogContext = jslog\<rparr>"

definition bindToValue :: "CheckboxLabel \<Rightarrow> bool \<Rightarrow> CheckboxLabel" where
  "bindToValue c v = c\<lparr>checked := v\<rparr>"

subsection \<open>TextFilterUI\<close>

text \<open>
  A promise that has settled: resolved with a value or rejected with an error.
\<close>

datatype 'a Promise = Resolved 'a | Rejected error

text \<open>
  \<open>Suggestions\<close> (SuggestBox) is not under src/: a list of suggestions of a type
  \<open>'sg\<close> left open. \<open>filterValue\<close> is what \<open>valueWithoutSuggestion\<close> of the toolbar
  filter returns.
\<close>

record 'sg TextFilterUI =
  filterValue :: string
  suggestionProvider :: "(string \<Rightarrow> string \<Rightarrow> bool option \<Rightarrow> 'sg list Promise) option"
  textDispatched :: "FilterUIEvents list"

definition new_TextFilterUI :: "'sg TextFilterUI" where
  "new_TextFilterUI = \<lparr>filterValue = [], suggestionProvider = None, textDispatched = []\<rparr>"

definition completions :: "'sg TextFilterUI \<Rightarrow> string \<Rightarrow> string \<Rightarrow> bool option \<Rightarrow> 'sg list Promise" where
  "completions f expression prefix force =
     (case suggestionProvider f of
        Some provider \<Rightarrow> provider expression prefix force
      | None \<Rightarrow> Resolved [])"

definition TextFilterUI_isActive :: "'sg TextFilterUI \<Rightarrow> bool" where
  "TextFilterUI_isActive f = (filterValue f \<noteq> [])"

definition setSuggestionProvider ::
  "(string \<Rightarrow> string \<Rightarrow> bool option \<Rightarrow> 'sg list Promise) \<Rightarrow> 'sg TextFilterUI \<Rightarrow> 'sg TextFilterUI" where
  "setSuggestionProvider provider f = f\<lparr>suggestionProvider := Some provider\<rparr>"

definition valueChanged :: "'sg TextFilterUI \<Rightarrow> 'sg TextFilterUI" where
  "valueChanged f = f\<lparr>textDispatched := textDispatched f @ [FILTER_CHANGED]\<rparr>"

definition setValue :: "string \<Rightarrow> 'sg TextFilterUI \<Rightarrow> 'sg TextFilterUI" where
  "setValue v f = valueChanged (f\<lparr>filterValue := v\<rparr>)"

subsection \<open>FilterBar\<close>

text \<open>
  \<open>interface FilterUI\<close> with its three implementations; \<open>isActive\<close> dispatches on the
  class of the object.
\<close>

datatype 'sg FilterUI =
  Text "'sg TextFilterUI"
| NamedBitSet NamedBitSetFilterUI
| Checkbox CheckboxFilterUI

fun FilterUI_isActive :: "'sg FilterUI \<Rightarrow> bool" where
  "FilterUI_isActive (Text f) = TextFilterUI_isActive f"
| "FilterUI_isActive (NamedBitSet f) = isActive f"
| "FilterUI_isActive (Checkbox f) = CheckboxFilterUI_isActive f"

text \<open>
  The fields of \<open>FilterBar\<close> that the filter logic uses. \<open>filters\<close> holds references to
  the filter objects; \<open>filterButtonChecked\<close> is the checked state of
  \<open>filterButtonInternal\<close>; \<open>barDispatched\<close> is the log of the bar's
  \<open>dispatchEventToListeners\<close> calls.
\<close>

record FilterBar =
  enabled :: bool
  filters :: "nat list"
  filterButtonChecked :: bool
  barDispatched :: "FilterBarEvents list"

text \<open>The only listener the bar registers: its method \<open>filterChanged\<close>, bound to the bar.\<close>

datatype Listener = FilterBar_filterChanged

text \<open>
  The objects a bar works with: the filter objects by reference, with their current
  state, and the \<open>FILTER_CHANGED\<close> listeners registered on each.
  Modelled from the spec: \<open>Common.ObjectWrapper\<close> (\<open>addEventListener\<close>,
  \<open>dispatchEventToListeners\<close>) is not under src/. The spec has the filters emit change
  events "consumed by parent UI containers": a listener is added to the list of its
  event target, and a dispatched event is delivered once to each registered listener,
  in the order of registration.
\<close>

record 'sg World =
  objects :: "nat \<Rightarrow> 'sg FilterUI"
  listeners :: "nat \<Rightarrow> Listener list"
  bar :: FilterBar


fun anyActive :: "(nat \<Rightarrow> 'sg FilterUI) \<Rightarrow> nat list \<Rightarrow> bool" where
  "anyActive objs [] = False"
| "anyActive objs (f # fs) = (if FilterUI_isActive (objs f) then True else anyActive objs fs)"

definition hasActiveFilter :: "'sg World \<Rightarrow> bool" where
  "hasActiveFilter w = anyActive (objects w) (filters (bar w))"

definition updateFilterButton :: "'sg World \<Rightarrow> 'sg World" where
  "updateFilterButton w = w\<lparr>bar := (bar w)\<lparr>filterButtonChecked := hasActiveFilter w\<rparr>\<rparr>"




definition clear :: "'sg World \<Rightarrow> 'sg World" where
  "clear w = updateFilterButton (w\<lparr>bar := (bar w)\<lparr>filters := []\<rparr>\<rparr>)"






section \<open>The INP breakdown insight (front\_end/panels/timeline/components/insights/INPBreakdown.ts)\<close>

text \<open>
  \<open>Trace.Types.Timing.Micro\<close>: a time in microseconds, a number of the source read as
  an integer.
\<close>

type_synonym Micro = int

record TraceWindowMicro =
  min_micro :: Micro
  max_micro :: Micro
  range_micro :: Micro

text \<open>
  Modelled from the spec: \<open>Trace.Helpers.Timing.traceWindowFromMicroSeconds\<close> is not
  under src/. By its name and its use it builds the window with the given \<open>min\<close> and
  \<open>max\<close>, whose \<open>range\<close> is their difference.
\<close>

definition traceWindowFromMicroSeconds :: "Micro \<Rightarrow> Micro \<Rightarrow> TraceWindowMicro" where
  "traceWindowFromMicroSeconds mn mx = \<lparr>min_micro = mn, max_micro = mx, range_micro = mx - mn\<rparr>"

text \<open>The fields of \<open>SyntheticInteractionPair\<close> that the component reads.\<close>

record SyntheticInteractionPair =
  ts :: Micro
  inputDelay :: Micro
  mainThreadHandling :: Micro
  presentationDelay :: Micro

record INPBreakdownInsightModel =
  longestInteractionEvent :: "SyntheticInteractionPair option"
  highPercentileInteractionEvent :: "SyntheticInteractionPair option"

text \<open>
  The keys of \<open>UIStrings\<close> of the insight model that the component uses;
  \<open>i18nString\<close>, which maps a key to its localized string, is a parameter.
\<close>

datatype UIString =
  str_inputDelay
| str_processingDuration
| str_presentationDelay
| str_noInteractions
| str_subpart
| str_duration

record EntryBreakdown =
  bounds :: TraceWindowMicro
  sectionLabel :: string
  showDuration :: bool

text \<open>
  A \<open>TimelineOverlay\<close> of type \<open>TIMESPAN_BREAKDOWN\<close>. An element of \<open>sections\<close> is
  \<open>None\<close> where the source stores \<open>undefined\<close>: the array read
  \<open>sections[subpartIndex]\<close> out of range.
\<close>

record TimelineOverlay =
  overlayType :: string
  sections :: "EntryBreakdown option list"
  renderLocation :: string
  entry :: SyntheticInteractionPair

text \<open>The component: \<open>model\<close> is \<open>None\<close> while no insight model is set.\<close>

record INPBreakdown =
  model :: "INPBreakdownInsightModel option"

definition hasAskAiSupport :: "INPBreakdown \<Rightarrow> bool" where
  "hasAskAiSupport c =
     (case model c of None \<Rightarrow> False | Some m \<Rightarrow> longestInteractionEvent m \<noteq> None)"

text \<open>
  \<open>subpartIndex\<close> is \<open>- 1\<close> for all subparts (the default of the source), otherwise the
  index of the one section kept.
\<close>

definition createOverlaysForSbupart ::
  "(UIString \<Rightarrow> string) \<Rightarrow> SyntheticInteractionPair \<Rightarrow> int \<Rightarrow> TimelineOverlay list" where
  "createOverlaysForSbupart i18nString event subpartIndex =
     (let p1 = traceWindowFromMicroSeconds (ts event) (ts event + inputDelay event);
          p2 = traceWindowFromMicroSeconds (max_micro p1) (max_micro p1 + mainThreadHandling event);
          p3 = traceWindowFromMicroSeconds (max_micro p2) (max_micro p2 + presentationDelay event);
          all_sections =
            [Some \<lparr>bounds = p1, sectionLabel = i18nString str_inputDelay, showDuration = True\<rparr>,
             Some \<lparr>bounds = p2, sectionLabel = i18nString str_processingDuration, showDuration = True\<rparr>,
             Some \<lparr>bounds = p3, sectionLabel = i18nString str_presentationDelay, showDuration = True\<rparr>];
          kept =
            (if subpartIndex \<noteq> - 1
             then [if 0 \<le> subpartIndex \<and> subpartIndex < int (length all_sections)
                   then all_sections ! nat subpartIndex else None]
             else all_sections)
      in [\<lparr>overlayType = ''TIMESPAN_BREAKDOWN'', sections = kept,
           renderLocation = ''BELOW_EVENT'', entry = event\<rparr>])"

text \<open>
  The methods of the component take the component and return it with their result, so
  that what they do to \<open>this.model\<close> is part of the model: neither assigns to the
  component, to the insight model or to the event.
\<close>

definition createOverlays :: "(UIString \<Rightarrow> string) \<Rightarrow> INPBreakdown \<Rightarrow> TimelineOverlay list \<times> INPBreakdown" where
  "createOverlays i18nString c =
     (case model c of
        None \<Rightarrow> ([], c)
      | Some m \<Rightarrow>
          (case longestInteractionEvent m of
             None \<Rightarrow> ([], c)
           | Some event \<Rightarrow> (createOverlaysForSbupart i18nString event (- 1), c)))"

record TableRow =
  rowValues :: "string list"
  overlays :: "TimelineOverlay list"

text \<open>
  The template \<open>renderContent\<close> returns: the section with the "no interactions" text, or
  the section with the table (its headers and rows).
\<close>

datatype LitTemplate =
  InsightSectionText string
| InsightSectionTable "string list" "TableRow list"

text \<open>
  \<open>time\<close> formats a duration (\<open>millisToString\<close> of \<open>microSecondsToMilliSeconds\<close>,
  neither under src/) and is a parameter.
\<close>

definition renderContent ::
  "(UIString \<Rightarrow> string) \<Rightarrow> (Micro \<Rightarrow> string) \<Rightarrow> INPBreakdown \<Rightarrow> LitTemplate \<times> INPBreakdown" where
  "renderContent i18nString time c =
     (case (case model c of None \<Rightarrow> None | Some m \<Rightarrow> longestInteractionEvent m) of
        None \<Rightarrow> (InsightSectionText (i18nString str_noInteractions), c)
      | Some event \<Rightarrow>
          (InsightSectionTable
             [i18nString str_subpart, i18nString str_duration]
             [\<lparr>rowValues = [i18nString str_inputDelay, time (inputDelay event)],
               overlays = createOverlaysForSbupart i18nString event 0\<rparr>,
              \<lparr>rowValues = [i18nString str_processingDuration, time (mainThreadHandling event)],
               overlays = createOverlaysForSbupart i18nString event 1\<rparr>,
              \<lparr>rowValues = [i18nString str_presentationDelay, time (presentationDelay event)],
               overlays = createOverlaysForSbupart i18nString event 2\<rparr>],
           c))"

text \<open>An interaction and a component used to evaluate the definitions.\<close>

definition demoEvent :: SyntheticInteractionPair where
  "demoEvent = \<lparr>ts = 1000, inputDelay = 20, mainThreadHandling = 300, presentationDelay = 4\<rparr>"

definition demoComponent :: INPBreakdown where
  "demoComponent =
     \<lparr>model = Some \<lparr>longestInteractionEvent = Some demoEvent,
                     highPercentileInteractionEvent = None\<rparr>\<rparr>"

definition englishStrings :: "UIString \<Rightarrow> string" where
  "englishStrings k =
     (case k of
        str_inputDelay \<Rightarrow> ''Input delay''
      | str_processingDuration \<Rightarrow> ''Processing duration''
      | str_presentationDelay \<Rightarrow> ''Presentation delay''
      | str_noInteractions \<Rightarrow> ''No interactions detected''
      | str_subpart \<Rightarrow> ''Subpart''
      | str_duration \<Rightarrow> ''Duration'')"

section \<open>Polling helpers of the test harness (DevToolsPage, in the same source file)\<close>

text \<open>
  The values a polled function resolves to, as far as their truthiness goes:
  \<open>undefined\<close>, \<open>null\<close>, booleans, (integer) numbers, strings and objects (element
  handles and the like, by reference).
\<close>

datatype jsval =
  JSUndefined
| JSNull
| JSBool bool
| JSNumber int
| JSString string
| JSObject nat

fun truthy :: "jsval \<Rightarrow> bool" where
  "truthy JSUndefined = False"
| "truthy JSNull = False"
| "truthy (JSBool b) = b"
| "truthy (JSNumber n) = (n \<noteq> 0)"
| "truthy (JSString s) = (s \<noteq> [])"
| "truthy (JSObject _) = True"

text \<open>
  What a run of the helper does besides computing its result: calls of the polled
  function and calls of \<open>this.timeout\<close> with their argument in milliseconds.
\<close>

datatype Action = CallFn | Timeout nat

definition MAX_SAFE_INTEGER :: int where
  "MAX_SAFE_INTEGER = 2 ^ 53 - 1"

text \<open>
  The loop of \<open>waitForFunctionWithTries\<close>. The polled function \<open>fn\<close> runs against
  the world \<open>'w\<close> (the remote page) and resolves to a value or rejects; a rejection
  leaves the loop as the exception it throws at \<open>await\<close>. \<open>timeout\<close>
  (\<open>PageWrapper.timeout\<close>, not under src/) is a parameter: what a wait of so many
  milliseconds does to the world. \<open>tries\<close> is the counter after \<open>tries++\<close> of the
  previous rounds, \<open>optTries\<close> is \<open>options.tries\<close>; both are integers (the model does
  not follow the source's doubles beyond \<open>MAX_SAFE_INTEGER\<close>). The trace \<open>tr\<close>
  records the calls made so far.
\<close>

function triesLoop ::
  "(nat \<Rightarrow> 'w \<Rightarrow> 'w) \<Rightarrow> ('w \<Rightarrow> (error + jsval) \<times> 'w) \<Rightarrow> int \<Rightarrow> int \<Rightarrow> 'w \<Rightarrow> Action list \<Rightarrow>
   (error + jsval) \<times> 'w \<times> Action list" where
  "triesLoop timeout fn optTries tries w tr =
     (if tries < optTries
      then (let r = fn w
            in case fst r of
                 Inl e \<Rightarrow> (Inl e, snd r, tr @ [CallFn])
               | Inr result \<Rightarrow>
                   if truthy result then (Inr result, snd r, tr @ [CallFn])
                   else triesLoop timeout fn optTries (tries + 1) (timeout 100 (snd r))
                          (tr @ [CallFn, Timeout 100]))
      else (Inr JSUndefined, w, tr))"
  by pat_completeness auto
termination
  by (relation "measure (\<lambda>(timeout, fn, optTries, tries, w, tr). nat (optTries - tries))") auto

declare triesLoop.simps [simp del]

record TriesOptions =
  tries :: int

text \<open>
  \<open>waitForFunctionWithTries\<close>: \<open>options\<close> defaults to \<open>MAX_SAFE_INTEGER\<close> tries.
  \<open>AsyncScope.exec\<close> (conductor, not under src/) runs its callback once and returns
  what it returns; it is left out.
\<close>

definition waitForFunctionWithTries ::
  "(nat \<Rightarrow> 'w \<Rightarrow> 'w) \<Rightarrow> ('w \<Rightarrow> (error + jsval) \<times> 'w) \<Rightarrow> TriesOptions option \<Rightarrow> 'w \<Rightarrow>
   (error + jsval) \<times> 'w \<times> Action list" where
  "waitForFunctionWithTries timeout fn options w =
     (let opts = (case options of None \<Rightarrow> \<lparr>tries = MAX_SAFE_INTEGER\<rparr> | Some v \<Rightarrow> v)
      in triesLoop timeout fn (tries opts) 0 w [])"

text \<open>
  \<open>waitForWithTries\<close> polls an element query: \<open>query\<close> is \<open>this.$(selector, root,
  handler)\<close> run against the world, resolving to an element handle or \<open>null\<close>;
  the polled function \<open>elementOrUndefined\<close> is the arrow function of the source, whose
  \<open>element || undefined\<close> turns a falsy result into \<open>undefined\<close>.
\<close>

definition elementOrUndefined :: "('w \<Rightarrow> (error + jsval) \<times> 'w) \<Rightarrow> 'w \<Rightarrow> (error + jsval) \<times> 'w" where
  "elementOrUndefined query w =
     (let r = query w
      in (case fst r of
            Inl e \<Rightarrow> Inl e
          | Inr element \<Rightarrow> Inr (if truthy element then element else JSUndefined),
          snd r))"

definition waitForWithTries ::
  "(nat \<Rightarrow> 'w \<Rightarrow> 'w) \<Rightarrow> ('w \<Rightarrow> (error + jsval) \<times> 'w) \<Rightarrow> TriesOptions option \<Rightarrow> 'w \<Rightarrow>
   (error + jsval) \<times> 'w \<times> Action list" where
  "waitForWithTries timeout query options w =
     waitForFunctionWithTries timeout (elementOrUndefined query) options w"

text \<open>
  The attempts of a run in which no earlier attempt ended the loop:
  \<open>worldBefore k\<close> is the world the attempt number \<open>k\<close> (from 0) starts in, after
  \<open>k\<close> calls each followed by the wait of 100 ms, and \<open>attempt k\<close> is what that call
  resolves to. \<open>falsyResult\<close> holds of a call that resolved to a falsy value.
\<close>

fun worldBefore :: "(nat \<Rightarrow> 'w \<Rightarrow> 'w) \<Rightarrow> ('w \<Rightarrow> (error + jsval) \<times> 'w) \<Rightarrow> 'w \<Rightarrow> nat \<Rightarrow> 'w" where
  "worldBefore timeout fn w 0 = w"
| "worldBefore timeout fn w (Suc k) = worldBefore timeout fn (timeout 100 (snd (fn w))) k"

definition attempt :: "(nat \<Rightarrow> 'w \<Rightarrow> 'w) \<Rightarrow> ('w \<Rightarrow> (error + jsval) \<times> 'w) \<Rightarrow> 'w \<Rightarrow> nat \<Rightarrow> error + jsval" where
  "attempt timeout fn w k = fst (fn (worldBefore timeout fn w k))"

definition falsyResult :: "error + jsval \<Rightarrow> bool" where
  "falsyResult r = (case r of Inl e \<Rightarrow> False | Inr v \<Rightarrow> \<not> truthy v)"

fun rounds :: "nat \<Rightarrow> Action list" where
  "rounds 0 = []"
| "rounds (Suc k) = [CallFn, Timeout 100] @ rounds k"

text \<open>
  A page used to evaluate the loop: the world is the number of polls made so far, and
  the element appears at the third poll.
\<close>

definition thirdPoll :: "nat \<Rightarrow> (error + jsval) \<times> nat" where
  "thirdPoll w = (if w < 2 then Inr JSNull else Inr (JSObject 7), Suc w)"

definition noWait :: "nat \<Rightarrow> nat \<Rightarrow> nat" where
  "noWait ms w = w"

section \<open>Properties of NamedBitSetFilterUI\<close>

lemma update_allowedTypes:
  "allowedTypes (update s) =
     (if allowedTypes s = {} \<or> ALL_TYPES \<in> allowedTypes s then {ALL_TYPES} else allowedTypes s)"
  by (simp add: update_def Let_def)

lemma update_dispatched: "dispatched (update s) = dispatched s @ [FILTER_CHANGED]"
  by (simp add: update_def Let_def)

lemma update_setting: "setting (update s) = setting s"
  by (simp add: update_def Let_def)

lemma update_elements:
  "typeFilterElements (update s) =
     map (\<lambda>element. element\<lparr>selected := (typeName element \<in> allowedTypes (update s))\<rparr>)
       (typeFilterElements s)"
  by (simp add: update_def Let_def)

lemma settingChanged_Some:
  "setting s = Some v \<Longrightarrow>
     settingChanged s =
       Inr (update (s\<lparr>allowedTypes := allowedFromSetting v (typeFilterElements s) {}\<rparr>))"
  by (simp add: settingChanged_def)

lemma toggledTypes_nonempty: "toggledTypes tn m a \<noteq> {}"
  by (simp add: toggledTypes_def Let_def)

lemma toggleTypeFilter_None:
  "setting s = None \<Longrightarrow>
     toggleTypeFilter tn m s =
       Inr (update (s\<lparr>allowedTypes := toggledTypes tn m (allowedTypes s)\<rparr>))"
  by (simp add: toggleTypeFilter_def Let_def)

lemma toggleTypeFilter_Some:
  "setting s = Some w \<Longrightarrow>
     toggleTypeFilter tn m s =
       Inr (update (s\<lparr>setting := Some (updatedSetting (toggledTypes tn m (allowedTypes s))),
                      allowedTypes :=
                        allowedFromSetting (updatedSetting (toggledTypes tn m (allowedTypes s)))
                          (typeFilterElements s) {}\<rparr>))"
  by (simp add: toggleTypeFilter_def Let_def Setting_set_def settingChanged_def)

lemma toggleTypeFilter_is_update: "\<exists>s0. toggleTypeFilter tn m s = Inr (update s0)"
  by (cases "setting s") (auto simp: toggleTypeFilter_None toggleTypeFilter_Some)

lemma toggleTypeFilter_total: "\<exists>s'. toggleTypeFilter tn m s = Inr s'"
  using toggleTypeFilter_is_update [of tn m s] by blast

lemma new_total: "\<exists>s'. new_NamedBitSetFilterUI items st = Inr s'"
  by (cases st) (simp_all add: new_NamedBitSetFilterUI_def Let_def settingChanged_def toggleTypeFilter_total)

text \<open>What an operation that ends in \<open>update\<close> leaves in \<open>allowedTypes\<close>.\<close>

lemma settingChanged_allowed:
  assumes "settingChanged s = Inr s'"
  shows "allowedTypes s' \<noteq> {} \<and> (ALL_TYPES \<in> allowedTypes s' \<longrightarrow> allowedTypes s' = {ALL_TYPES})"
  using assms
  by (auto simp: settingChanged_def update_allowedTypes split: option.splits if_splits)

lemma update_allowed:
  "allowedTypes (update s) \<noteq> {} \<and>
   (ALL_TYPES \<in> allowedTypes (update s) \<longrightarrow> allowedTypes (update s) = {ALL_TYPES})"
  by (simp add: update_allowedTypes)

lemma toggleTypeFilter_allowed:
  assumes "toggleTypeFilter tn m s = Inr s'"
  shows "allowedTypes s' \<noteq> {} \<and> (ALL_TYPES \<in> allowedTypes s' \<longrightarrow> allowedTypes s' = {ALL_TYPES})"
proof -
  from assms toggleTypeFilter_is_update [of tn m s] obtain s0 where "s' = update s0"
    by auto
  then show ?thesis
    using update_allowed [of s0] by simp
qed

lemma new_allowed:
  assumes "new_NamedBitSetFilterUI items st = Inr s'"
  shows "allowedTypes s' \<noteq> {} \<and> (ALL_TYPES \<in> allowedTypes s' \<longrightarrow> allowedTypes s' = {ALL_TYPES})"
  using assms
  by (cases st)
     (auto simp: new_NamedBitSetFilterUI_def Let_def
           dest!: settingChanged_allowed toggleTypeFilter_allowed)


lemma allowedFromSetting_mem:
  "x \<in> allowedFromSetting v els acc \<longleftrightarrow>
     x \<in> acc \<or> (x \<noteq> [] \<and> readTruthy v x \<and> x \<in> typeName ` set els)"
  by (induction els arbitrary: acc) auto

lemma readTruthy_updatedSetting:
  "readTruthy (updatedSetting a) x \<longleftrightarrow> x \<in> a \<or> x \<in> objectPrototypeNames"
  by (auto simp: readTruthy_def updatedSetting_def objectPrototypeNames_def)

text \<open>
  Claim C1. In \<open>NamedBitSetFilterUI\<close> the sentinel \<open>ALL_TYPES\<close> excludes every other
  selection: the constructor, \<open>toggleTypeFilter\<close>, \<open>reset\<close>, \<open>settingChanged\<close> (when
  the filter has a setting) and a \<open>set\<close> of the setting all complete, and in the state
  they leave, if \<open>allowedTypes\<close> holds \<open>ALL_TYPES\<close> it holds nothing else.
\<close>

theorem all_sentinel_exclusive:
  "(\<exists>s'. new_NamedBitSetFilterUI items st = Inr s' \<and>
          (ALL_TYPES \<in> allowedTypes s' \<longrightarrow> allowedTypes s' = {ALL_TYPES})) \<and>
   (\<exists>s'. toggleTypeFilter tn m s = Inr s' \<and>
          (ALL_TYPES \<in> allowedTypes s' \<longrightarrow> allowedTypes s' = {ALL_TYPES})) \<and>
   (\<exists>s'. reset s = Inr s' \<and>
          (ALL_TYPES \<in> allowedTypes s' \<longrightarrow> allowedTypes s' = {ALL_TYPES})) \<and>
   (setting s \<noteq> None \<longrightarrow>
      (\<exists>s'. settingChanged s = Inr s' \<and>
          (ALL_TYPES \<in> allowedTypes s' \<longrightarrow> allowedTypes s' = {ALL_TYPES}))) \<and>
   (\<exists>s'. Setting_set v s = Inr s' \<and>
          (ALL_TYPES \<in> allowedTypes s' \<longrightarrow> allowedTypes s' = {ALL_TYPES}))"
proof (intro conjI impI)
  show "\<exists>s'. new_NamedBitSetFilterUI items st = Inr s' \<and>
          (ALL_TYPES \<in> allowedTypes s' \<longrightarrow> allowedTypes s' = {ALL_TYPES})"
    using new_total [of items st] new_allowed by blast
  show "\<exists>s'. toggleTypeFilter tn m s = Inr s' \<and>
          (ALL_TYPES \<in> allowedTypes s' \<longrightarrow> allowedTypes s' = {ALL_TYPES})"
    using toggleTypeFilter_total [of tn m s] toggleTypeFilter_allowed by blast
  show "\<exists>s'. reset s = Inr s' \<and>
          (ALL_TYPES \<in> allowedTypes s' \<longrightarrow> allowedTypes s' = {ALL_TYPES})"
    unfolding reset_def
    using toggleTypeFilter_total [of ALL_TYPES False s] toggleTypeFilter_allowed by blast
  show "\<exists>s'. settingChanged s = Inr s' \<and>
          (ALL_TYPES \<in> allowedTypes s' \<longrightarrow> allowedTypes s' = {ALL_TYPES})"
    if "setting s \<noteq> None"
  proof -
    from that obtain w where "setting s = Some w" by auto
    then obtain s' where "settingChanged s = Inr s'"
      by (simp add: settingChanged_def)
    then show ?thesis using settingChanged_allowed by blast
  qed
  show "\<exists>s'. Setting_set v s = Inr s' \<and>
          (ALL_TYPES \<in> allowedTypes s' \<longrightarrow> allowedTypes s' = {ALL_TYPES})"
  proof -
    obtain s' where "Setting_set v s = Inr s'"
      by (simp add: Setting_set_def settingChanged_def)
    then show ?thesis unfolding Setting_set_def using settingChanged_allowed by blast
  qed
qed

text \<open>
  The theorem at concrete filters: deselecting the only selected type \<open>a\<close> with the
  multi-select modifier, and reading a setting that names \<open>all\<close> and \<open>b\<close>, both leave
  exactly \<open>ALL_TYPES\<close>.
\<close>

theorem all_sentinel_exclusive_witness:
  "toggleTypeFilter ''a'' True (filter_ab {''a''} False True False None 0)
     = Inr (filter_ab {''all''} True False False None 1) \<and>
   ALL_TYPES \<in> allowedTypes (filter_ab {''all''} True False False None 1) \<and>
   allowedTypes (filter_ab {''all''} True False False None 1) = {ALL_TYPES} \<and>
   setting (filter_ab {''a''} False True False (Some [''all'' \<mapsto> True, ''b'' \<mapsto> True]) 0) \<noteq> None \<and>
   settingChanged (filter_ab {''a''} False True False (Some [''all'' \<mapsto> True, ''b'' \<mapsto> True]) 0)
     = Inr (filter_ab {''all''} True False False (Some [''all'' \<mapsto> True, ''b'' \<mapsto> True]) 1)"
  using all_sentinel_exclusive [of "[item_a, item_b]" None "''a''" True
      "filter_ab {''a''} False True False None 0" "Map.empty"]
    all_sentinel_exclusive [of "[item_a, item_b]" None "''a''" True
      "filter_ab {''a''} False True False (Some [''all'' \<mapsto> True, ''b'' \<mapsto> True]) 0" "Map.empty"]
  by (simp add: toggleTypeFilter_def toggledTypes_def settingChanged_def update_def filter_ab_def filterBit_def
      readTruthy_def objectPrototypeNames_def
      ALL_TYPES_def Let_def)

lemma update_selected:
  "element \<in> set (typeFilterElements (update s)) \<Longrightarrow>
     selected element = (typeName element \<in> allowedTypes (update s))"
  unfolding update_elements by auto

lemma update_names:
  "map typeName (typeFilterElements (update s)) = map typeName (typeFilterElements s)"
  by (simp add: update_def Let_def comp_def)

lemma toggleTypeFilter_names:
  assumes "toggleTypeFilter tn m s = Inr s'"
  shows "map typeName (typeFilterElements s') = map typeName (typeFilterElements s)"
  using assms
  by (cases "setting s") (auto simp: toggleTypeFilter_None toggleTypeFilter_Some update_names)

lemma settingChanged_names:
  assumes "settingChanged s = Inr s'"
  shows "map typeName (typeFilterElements s') = map typeName (typeFilterElements s)"
  using assms
  by (auto simp: settingChanged_def update_names split: option.splits)

lemma addBits_names:
  "map typeName (typeFilterElements (addBits items s)) =
     map typeName (typeFilterElements s) @ map name items"
  by (induction items arbitrary: s) (simp_all add: addBit_def)

lemma new_names:
  assumes "new_NamedBitSetFilterUI items st = Inr s'"
  shows "map typeName (typeFilterElements s') = ALL_TYPES # map name items"
proof -
  let ?s2 = "(addBit ALL_TYPES allStrings ALL_TYPES None
       \<lparr>typeFilterElements = [], allowedTypes = {}, setting = None, dispatched = []\<rparr>)
     \<lparr>typeFilterElements :=
        (typeFilterElements (addBit ALL_TYPES allStrings ALL_TYPES None
           \<lparr>typeFilterElements = [], allowedTypes = {}, setting = None, dispatched = []\<rparr>))
        [0 := (typeFilterElements (addBit ALL_TYPES allStrings ALL_TYPES None
           \<lparr>typeFilterElements = [], allowedTypes = {}, setting = None, dispatched = []\<rparr>) ! 0)
           \<lparr>tabIndex := 0\<rparr>]\<rparr>"
  have n: "map typeName (typeFilterElements (addBits items ?s2)) = ALL_TYPES # map name items"
    by (simp add: addBits_names addBit_def)
  show ?thesis
  proof (cases st)
    case None
    with assms have "toggleTypeFilter ALL_TYPES False (addBits items ?s2) = Inr s'"
      by (simp add: new_NamedBitSetFilterUI_def Let_def)
    then show ?thesis
      using n by (simp add: toggleTypeFilter_names)
  next
    case (Some v)
    with assms have "settingChanged ((addBits items ?s2)\<lparr>setting := Some v\<rparr>) = Inr s'"
      by (simp add: new_NamedBitSetFilterUI_def Let_def)
    then have "map typeName (typeFilterElements s') =
        map typeName (typeFilterElements ((addBits items ?s2)\<lparr>setting := Some v\<rparr>))"
      by (rule settingChanged_names)
    then show ?thesis
      using n by simp
  qed
qed

lemma names_image: "typeName ` set els = set (map typeName els)"
  by simp

lemma toggle_all_allowed:
  assumes r: "toggleTypeFilter ALL_TYPES m s = Inr s'"
    and h: "setting s \<noteq> None \<longrightarrow>
             ALL_TYPES \<in> typeName ` set (typeFilterElements s) \<or>
             (\<forall>element \<in> set (typeFilterElements s). typeName element \<notin> objectPrototypeNames)"
  shows "allowedTypes s' = {ALL_TYPES}"
proof (cases "setting s")
  case None
  with r show ?thesis
    by (auto simp: toggleTypeFilter_None toggledTypes_def update_allowedTypes)
next
  case (Some w)
  let ?X = "allowedFromSetting (updatedSetting {ALL_TYPES}) (typeFilterElements s) {}"
  have t: "toggledTypes ALL_TYPES m (allowedTypes s) = {ALL_TYPES}"
    by (simp add: toggledTypes_def)
  have X: "x \<in> ?X \<longleftrightarrow>
      x \<noteq> [] \<and> (x = ALL_TYPES \<or> x \<in> objectPrototypeNames) \<and>
      x \<in> typeName ` set (typeFilterElements s)" for x
    by (simp add: allowedFromSetting_mem readTruthy_updatedSetting)
  have "?X = {} \<or> ALL_TYPES \<in> ?X"
  proof (cases "ALL_TYPES \<in> typeName ` set (typeFilterElements s)")
    case True
    then have "ALL_TYPES \<in> ?X"
      unfolding X by (simp add: ALL_TYPES_def)
    then show ?thesis ..
  next
    case False
    with h Some have "\<forall>element \<in> set (typeFilterElements s). typeName element \<notin> objectPrototypeNames"
      by simp
    with False have "x \<notin> ?X" for x
      unfolding X by (cases "x = ALL_TYPES") auto
    then have "?X = {}"
      by blast
    then show ?thesis ..
  qed
  moreover from r Some t have "s' = update (s\<lparr>setting := Some (updatedSetting {ALL_TYPES}),
      allowedTypes := ?X\<rparr>)"
    by (simp add: toggleTypeFilter_Some)
  ultimately show ?thesis
    by (auto simp: update_allowedTypes)
qed

text \<open>
  Claim C3. Selecting the bit of \<open>ALL_TYPES\<close>, with or without multi-select, completes
  and leaves \<open>allowedTypes\<close> equal to the set of \<open>ALL_TYPES\<close> alone: no bit of another
  type is selected, and \<open>isActive\<close> is false afterwards. This holds in every state of
  a filter without a setting, and with a setting in every state that has the bit of
  \<open>ALL_TYPES\<close> (or no bit named like a property of \<open>Object.prototype\<close>). Every filter
  has that bit: the constructor creates it first, and no operation changes the type
  names of the bits.
\<close>

theorem select_all_clears:
  "((setting s \<noteq> None \<longrightarrow>
       ALL_TYPES \<in> typeName ` set (typeFilterElements s) \<or>
       (\<forall>element \<in> set (typeFilterElements s). typeName element \<notin> objectPrototypeNames)) \<longrightarrow>
    (\<exists>s'. toggleTypeFilter ALL_TYPES m s = Inr s' \<and>
        allowedTypes s' = {ALL_TYPES} \<and>
        (\<forall>element \<in> set (typeFilterElements s').
           selected element = (typeName element = ALL_TYPES)) \<and>
        \<not> isActive s')) \<and>
   (\<exists>s0. new_NamedBitSetFilterUI items st = Inr s0 \<and>
         map typeName (typeFilterElements s0) = ALL_TYPES # map name items) \<and>
   (\<forall>tn m' s1. toggleTypeFilter tn m' s = Inr s1 \<longrightarrow>
      map typeName (typeFilterElements s1) = map typeName (typeFilterElements s)) \<and>
   (\<forall>s1. settingChanged s = Inr s1 \<longrightarrow>
      map typeName (typeFilterElements s1) = map typeName (typeFilterElements s)) \<and>
   (\<forall>v s1. Setting_set v s = Inr s1 \<longrightarrow>
      map typeName (typeFilterElements s1) = map typeName (typeFilterElements s))"
proof (intro conjI impI allI)
  assume h: "setting s \<noteq> None \<longrightarrow>
       ALL_TYPES \<in> typeName ` set (typeFilterElements s) \<or>
       (\<forall>element \<in> set (typeFilterElements s). typeName element \<notin> objectPrototypeNames)"
  obtain s' where r: "toggleTypeFilter ALL_TYPES m s = Inr s'"
    using toggleTypeFilter_total by blast
  have a: "allowedTypes s' = {ALL_TYPES}"
    using r h by (rule toggle_all_allowed)
  have "\<exists>s0. s' = update s0"
    using r toggleTypeFilter_is_update [of ALL_TYPES m s] by auto
  then have "\<forall>element \<in> set (typeFilterElements s'). selected element = (typeName element = ALL_TYPES)"
    using a update_selected by fastforce
  with r a show "\<exists>s'. toggleTypeFilter ALL_TYPES m s = Inr s' \<and>
        allowedTypes s' = {ALL_TYPES} \<and>
        (\<forall>element \<in> set (typeFilterElements s').
           selected element = (typeName element = ALL_TYPES)) \<and>
        \<not> isActive s'"
    by (simp add: isActive_def)
next
  show "\<exists>s0. new_NamedBitSetFilterUI items st = Inr s0 \<and>
         map typeName (typeFilterElements s0) = ALL_TYPES # map name items"
    using new_total [of items st] new_names by blast
next
  fix tn m' s1
  assume "toggleTypeFilter tn m' s = Inr s1"
  then show "map typeName (typeFilterElements s1) = map typeName (typeFilterElements s)"
    by (rule toggleTypeFilter_names)
next
  fix s1
  assume "settingChanged s = Inr s1"
  then show "map typeName (typeFilterElements s1) = map typeName (typeFilterElements s)"
    by (rule settingChanged_names)
next
  fix v s1
  assume "Setting_set v s = Inr s1"
  then show "map typeName (typeFilterElements s1) = map typeName (typeFilterElements s)"
    unfolding Setting_set_def by (simp add: settingChanged_names)
qed

text \<open>
  The theorem at a filter bound to a setting, with the bit of \<open>ALL_TYPES\<close> and bits
  for the types \<open>a\<close> and \<open>constructor\<close>, the last one selected: selecting
  \<open>ALL_TYPES\<close> with the modifier leaves only the first bit selected.
\<close>

theorem select_all_clears_witness:
  "setting (filter_ctor {''constructor''} False False True (Some [''constructor'' \<mapsto> True]) 0) \<noteq> None \<and>
   ALL_TYPES \<in> typeName `
     set (typeFilterElements (filter_ctor {''constructor''} False False True (Some [''constructor'' \<mapsto> True]) 0)) \<and>
   toggleTypeFilter ALL_TYPES True
       (filter_ctor {''constructor''} False False True (Some [''constructor'' \<mapsto> True]) 0)
     = Inr (filter_ctor {''all''} True False False (Some (updatedSetting {''all''})) 1) \<and>
   allowedTypes (filter_ctor {''all''} True False False (Some (updatedSetting {''all''})) 1) = {ALL_TYPES} \<and>
   map selected (typeFilterElements (filter_ctor {''all''} True False False (Some (updatedSetting {''all''})) 1))
     = [True, False, False] \<and>
   \<not> isActive (filter_ctor {''all''} True False False (Some (updatedSetting {''all''})) 1)"
proof -
  let ?s = "filter_ctor {''constructor''} False False True (Some [''constructor'' \<mapsto> True]) 0"
  let ?r = "filter_ctor {''all''} True False False (Some (updatedSetting {''all''})) 1"
  have h1: "setting ?s \<noteq> None"
    by (simp add: filter_ctor_def)
  have h2: "ALL_TYPES \<in> typeName ` set (typeFilterElements ?s)"
    by (simp add: filter_ctor_def filterBit_def ALL_TYPES_def)
  have e: "toggleTypeFilter ALL_TYPES True ?s = Inr ?r"
    by (simp add: toggleTypeFilter_def toggledTypes_def Setting_set_def settingChanged_def
        update_def filter_ctor_def filterBit_def ALL_TYPES_def Let_def
        readTruthy_updatedSetting objectPrototypeNames_def)
  from select_all_clears [of ?s True "[]" None] h1 h2 obtain s' where
    "toggleTypeFilter ALL_TYPES True ?s = Inr s'"
    and p: "allowedTypes s' = {ALL_TYPES}" "\<not> isActive s'"
    by blast
  with e have "s' = ?r"
    by simp
  with p e h1 h2 show ?thesis
    by (simp add: filter_ctor_def filterBit_def)
qed

text \<open>
  Claim C9. The set \<open>allowedTypes\<close> is never empty after the constructor,
  \<open>toggleTypeFilter\<close>, \<open>reset\<close>, \<open>settingChanged\<close> (when the filter has a setting) or a
  \<open>set\<close> of the setting, each of which completes; so some type name is accepted and the
  filter cannot reject every record.
\<close>

theorem allowed_never_empty:
  "(\<exists>s'. new_NamedBitSetFilterUI items st = Inr s' \<and>
          allowedTypes s' \<noteq> {} \<and> (\<exists>t. accept s' t)) \<and>
   (\<exists>s'. toggleTypeFilter tn m s = Inr s' \<and>
          allowedTypes s' \<noteq> {} \<and> (\<exists>t. accept s' t)) \<and>
   (\<exists>s'. reset s = Inr s' \<and>
          allowedTypes s' \<noteq> {} \<and> (\<exists>t. accept s' t)) \<and>
   (setting s \<noteq> None \<longrightarrow>
      (\<exists>s'. settingChanged s = Inr s' \<and>
          allowedTypes s' \<noteq> {} \<and> (\<exists>t. accept s' t))) \<and>
   (\<exists>s'. Setting_set v s = Inr s' \<and>
          allowedTypes s' \<noteq> {} \<and> (\<exists>t. accept s' t))"
proof -
  have acc: "allowedTypes x \<noteq> {} \<Longrightarrow> \<exists>t. accept x t" for x
    by (auto simp: accept_def)
  have 1: "\<exists>s'. new_NamedBitSetFilterUI items st = Inr s' \<and>
          allowedTypes s' \<noteq> {} \<and> (\<exists>t. accept s' t)"
    using new_total [of items st] new_allowed acc by blast
  have 2: "\<exists>s'. toggleTypeFilter tn m s = Inr s' \<and>
          allowedTypes s' \<noteq> {} \<and> (\<exists>t. accept s' t)" for tn m
    using toggleTypeFilter_total [of tn m s] toggleTypeFilter_allowed acc by blast
  have 3: "\<exists>s'. settingChanged x = Inr s' \<and>
          allowedTypes s' \<noteq> {} \<and> (\<exists>t. accept s' t)" if "setting x \<noteq> None" for x
  proof -
    from that obtain w where "setting x = Some w" by auto
    then obtain s' where "settingChanged x = Inr s'"
      by (simp add: settingChanged_def)
    then show ?thesis using settingChanged_allowed acc by blast
  qed
  have 4: "\<exists>s'. Setting_set v s = Inr s' \<and>
          allowedTypes s' \<noteq> {} \<and> (\<exists>t. accept s' t)"
    unfolding Setting_set_def by (rule 3) simp
  from 1 2 [of tn m] 2 [of ALL_TYPES False] 3 [of s] 4 show ?thesis
    by (simp add: reset_def)
qed

text \<open>
  The theorem at a filter whose setting names no known type: reading the setting
  selects \<open>ALL_TYPES\<close>, and every type name is accepted.
\<close>

theorem allowed_never_empty_witness:
  "setting (filter_ab {''a''} False True False (Some [''zzz'' \<mapsto> True]) 0) \<noteq> None \<and>
   settingChanged (filter_ab {''a''} False True False (Some [''zzz'' \<mapsto> True]) 0)
     = Inr (filter_ab {''all''} True False False (Some [''zzz'' \<mapsto> True]) 1) \<and>
   allowedTypes (filter_ab {''all''} True False False (Some [''zzz'' \<mapsto> True]) 1) \<noteq> {} \<and>
   accept (filter_ab {''all''} True False False (Some [''zzz'' \<mapsto> True]) 1) ''b''"
proof -
  let ?s = "filter_ab {''a''} False True False (Some [''zzz'' \<mapsto> True]) 0"
  let ?r = "filter_ab {''all''} True False False (Some [''zzz'' \<mapsto> True]) 1"
  have h: "setting ?s \<noteq> None"
    by (simp add: filter_ab_def)
  have e: "settingChanged ?s = Inr ?r"
    by (simp add: settingChanged_def update_def filter_ab_def filterBit_def ALL_TYPES_def Let_def
        readTruthy_def objectPrototypeNames_def)
  from allowed_never_empty [of "[item_a]" None "''a''" False ?s "Map.empty"] h
  obtain s' where "settingChanged ?s = Inr s'" and p: "allowedTypes s' \<noteq> {}"
    by blast
  with e have "s' = ?r" by simp
  moreover have "accept ?r ''b''"
    by (simp add: accept_def filter_ab_def ALL_TYPES_def)
  ultimately show ?thesis using h e p by simp
qed

lemma update_length: "length (typeFilterElements (update s)) = length (typeFilterElements s)"
  by (simp add: update_def Let_def)

lemma update_selected_nth:
  "j < length (typeFilterElements s) \<Longrightarrow>
     selected (typeFilterElements (update s) ! j) =
       (typeName (typeFilterElements s ! j) \<in> allowedTypes (update s))"
  by (simp add: update_def Let_def)

lemma update_typeName_nth:
  "j < length (typeFilterElements s) \<Longrightarrow>
     typeName (typeFilterElements (update s) ! j) = typeName (typeFilterElements s ! j)"
  by (simp add: update_def Let_def)

text \<open>The set \<open>toggleTypeFilter\<close> computes, written out.\<close>

lemma toggledTypes_explicit:
  "toggledTypes tn m a =
     (if m \<and> tn \<noteq> ALL_TYPES
      then (if tn \<in> a
            then (if a - {ALL_TYPES, tn} = {} then {ALL_TYPES} else a - {ALL_TYPES, tn})
            else insert tn (a - {ALL_TYPES}))
      else {tn})"
  by (auto simp: toggledTypes_def Let_def)

lemma toggledTypes_all:
  "ALL_TYPES \<in> toggledTypes tn m a \<Longrightarrow> toggledTypes tn m a = {ALL_TYPES}"
  by (auto simp: toggledTypes_explicit split: if_splits)

lemma toggledTypes_subset:
  "toggledTypes tn m a \<subseteq> insert ALL_TYPES (insert tn (a - {ALL_TYPES}))"
  by (auto simp: toggledTypes_explicit split: if_splits)

lemma toggleTypeFilter_frame:
  assumes "toggleTypeFilter tn m s = Inr s'"
  shows "\<exists>s0. s' = update s0 \<and> typeFilterElements s0 = typeFilterElements s \<and>
              dispatched s0 = dispatched s"
  using assms
  by (cases "setting s") (auto simp: toggleTypeFilter_None toggleTypeFilter_Some)

text \<open>
  Without a setting, and with a setting whose filter has only bits with non-empty type
  names that \<open>Object.prototype\<close> does not have, and whose selected types other than
  \<open>ALL_TYPES\<close> are names of bits, \<open>toggleTypeFilter\<close> leaves exactly the toggled set.
\<close>

lemma toggleTypeFilter_result:
  assumes r: "toggleTypeFilter tn m s = Inr s'"
    and el: "tn \<in> typeName ` set (typeFilterElements s)"
    and h: "setting s \<noteq> None \<longrightarrow>
        allowedTypes s - {ALL_TYPES} \<subseteq> typeName ` set (typeFilterElements s) \<and>
        (\<forall>element \<in> set (typeFilterElements s).
           typeName element \<noteq> [] \<and> typeName element \<notin> objectPrototypeNames)"
  shows "allowedTypes s' = toggledTypes tn m (allowedTypes s)"
proof (cases "setting s")
  case None
  with r have "s' = update (s\<lparr>allowedTypes := toggledTypes tn m (allowedTypes s)\<rparr>)"
    by (simp add: toggleTypeFilter_None)
  then show ?thesis
    using toggledTypes_all [of tn m "allowedTypes s"]
    by (auto simp: update_allowedTypes toggledTypes_nonempty)
next
  case (Some w)
  let ?T = "toggledTypes tn m (allowedTypes s)"
  let ?N = "typeName ` set (typeFilterElements s)"
  let ?X = "allowedFromSetting (updatedSetting ?T) (typeFilterElements s) {}"
  from Some h have sub: "allowedTypes s - {ALL_TYPES} \<subseteq> ?N"
    and clean: "\<forall>x \<in> ?N. x \<noteq> [] \<and> x \<notin> objectPrototypeNames"
    by auto
  from r Some have s': "s' = update (s\<lparr>setting := Some (updatedSetting ?T), allowedTypes := ?X\<rparr>)"
    by (simp add: toggleTypeFilter_Some)
  have X: "?X = ?T \<inter> ?N"
    using clean by (auto simp: allowedFromSetting_mem readTruthy_updatedSetting)
  have a: "allowedTypes s' = (if ?X = {} \<or> ALL_TYPES \<in> ?X then {ALL_TYPES} else ?X)"
    using s' by (simp add: update_allowedTypes)
  show ?thesis
  proof (cases "ALL_TYPES \<in> ?T")
    case True
    then have T: "?T = {ALL_TYPES}"
      by (rule toggledTypes_all)
    then have "?X = {} \<or> ALL_TYPES \<in> ?X"
      unfolding X by auto
    with a T show ?thesis
      by auto
  next
    case False
    with toggledTypes_subset [of tn m "allowedTypes s"] sub el have "?T \<subseteq> ?N"
      by auto
    then have "?X = ?T"
      unfolding X by auto
    with a False show ?thesis
      by (simp add: toggledTypes_nonempty)
  qed
qed

text \<open>
  Claim C2, as amended. A click on a bit completes and fires exactly one
  \<open>FILTER_CHANGED\<close>. With the multi-select modifier on a bit other than the one of
  \<open>ALL_TYPES\<close> the click toggles the clicked type: it leaves the selection if it was
  in it and joins it otherwise, \<open>ALL_TYPES\<close> is dropped, the other selected types stay,
  and when nothing is left \<open>ALL_TYPES\<close> is selected. Without the modifier, or on the bit
  of \<open>ALL_TYPES\<close>, the selection becomes the clicked type alone, whatever it was
  before. Afterwards every bit has the class \<open>selected\<close> exactly when its type name is in
  the selection, so the clicked bit has changed its selected state in the first case and
  is selected in the second. For a filter bound to a setting this is stated where every
  bit has a non-empty type name that is not the name of a property of
  \<open>Object.prototype\<close>, and every selected type other than \<open>ALL_TYPES\<close> is the name of
  a bit.
\<close>

theorem click_selects_or_toggles:
  assumes "i < length (typeFilterElements s)"
    and "target e = Some (typeFilterElements s ! i)"
    and "setting s \<noteq> None \<longrightarrow>
        allowedTypes s - {ALL_TYPES} \<subseteq> typeName ` set (typeFilterElements s) \<and>
        (\<forall>element \<in> set (typeFilterElements s).
           typeName element \<noteq> [] \<and> typeName element \<notin> objectPrototypeNames)"
  shows "\<exists>s'. onTypeFilterClicked isMac e s = Inr s' \<and>
           dispatched s' = dispatched s @ [FILTER_CHANGED] \<and>
           allowedTypes s' =
             (if multiSelectToggle isMac e \<and> typeName (typeFilterElements s ! i) \<noteq> ALL_TYPES
              then (if typeName (typeFilterElements s ! i) \<in> allowedTypes s
                    then (if allowedTypes s - {ALL_TYPES, typeName (typeFilterElements s ! i)} = {}
                          then {ALL_TYPES}
                          else allowedTypes s - {ALL_TYPES, typeName (typeFilterElements s ! i)})
                    else insert (typeName (typeFilterElements s ! i)) (allowedTypes s - {ALL_TYPES}))
              else {typeName (typeFilterElements s ! i)}) \<and>
           map typeName (typeFilterElements s') = map typeName (typeFilterElements s) \<and>
           (\<forall>j < length (typeFilterElements s').
              selected (typeFilterElements s' ! j) =
                (typeName (typeFilterElements s' ! j) \<in> allowedTypes s')) \<and>
           (selected (typeFilterElements s ! i) =
              (typeName (typeFilterElements s ! i) \<in> allowedTypes s) \<longrightarrow>
            selected (typeFilterElements s' ! i) =
              (if multiSelectToggle isMac e \<and> typeName (typeFilterElements s ! i) \<noteq> ALL_TYPES
               then \<not> selected (typeFilterElements s ! i) else True))"
proof -
  let ?tn = "typeName (typeFilterElements s ! i)"
  let ?m = "multiSelectToggle isMac e"
  have c: "onTypeFilterClicked isMac e s = toggleTypeFilter ?tn ?m s"
    using assms(2) by (simp add: onTypeFilterClicked_def Let_def)
  obtain s' where r: "toggleTypeFilter ?tn ?m s = Inr s'"
    using toggleTypeFilter_total by blast
  from toggleTypeFilter_frame [OF r] obtain s0 where
    s0: "s' = update s0" "typeFilterElements s0 = typeFilterElements s" "dispatched s0 = dispatched s"
    by blast
  have el: "?tn \<in> typeName ` set (typeFilterElements s)"
    using assms(1) by simp
  have a: "allowedTypes s' = toggledTypes ?tn ?m (allowedTypes s)"
    using r el assms(3) by (rule toggleTypeFilter_result)
  have 1: "dispatched s' = dispatched s @ [FILTER_CHANGED]"
    using s0 by (simp add: update_dispatched)
  have 2: "map typeName (typeFilterElements s') = map typeName (typeFilterElements s)"
    using r by (rule toggleTypeFilter_names)
  have len: "length (typeFilterElements s') = length (typeFilterElements s)"
    using s0 by (simp add: update_length)
  have 3: "\<forall>j < length (typeFilterElements s').
      selected (typeFilterElements s' ! j) = (typeName (typeFilterElements s' ! j) \<in> allowedTypes s')"
    using s0 len by (simp add: update_selected_nth update_typeName_nth)
  have i': "selected (typeFilterElements s' ! i) = (?tn \<in> allowedTypes s')"
    using s0 assms(1) update_selected_nth [of i s0] by simp
  have 4: "selected (typeFilterElements s' ! i) =
      (if ?m \<and> ?tn \<noteq> ALL_TYPES then \<not> selected (typeFilterElements s ! i) else True)"
    if "selected (typeFilterElements s ! i) = (?tn \<in> allowedTypes s)"
    using that i' unfolding a toggledTypes_explicit by auto
  from 1 2 3 4 a show ?thesis
    unfolding c r toggledTypes_explicit by blast
qed

text \<open>
  The theorem at the filter built from the items \<open>a\<close> and \<open>b\<close> with a setting that
  allows both: a click with the control key on the bit of \<open>a\<close> leaves \<open>b\<close> alone
  selected and fires one more event.
\<close>

theorem click_selects_or_toggles_witness:
  "new_NamedBitSetFilterUI [item_a, item_b] (Some [''a'' \<mapsto> True, ''b'' \<mapsto> True])
     = Inr (filter_ab {''a'', ''b''} False True True (Some [''a'' \<mapsto> True, ''b'' \<mapsto> True]) 1) \<and>
   setting (filter_ab {''a'', ''b''} False True True (Some [''a'' \<mapsto> True, ''b'' \<mapsto> True]) 1) \<noteq> None \<and>
   list_all (\<lambda>element. typeName element \<noteq> [] \<and> typeName element \<notin> objectPrototypeNames)
     (typeFilterElements
        (filter_ab {''a'', ''b''} False True True (Some [''a'' \<mapsto> True, ''b'' \<mapsto> True]) 1)) \<and>
   multiSelectToggle False (click (filterBit ''a'' ''A'' (- 1) True) True) \<and>
   onTypeFilterClicked False (click (filterBit ''a'' ''A'' (- 1) True) True)
       (filter_ab {''a'', ''b''} False True True (Some [''a'' \<mapsto> True, ''b'' \<mapsto> True]) 1)
     = Inr (filter_ab {''b''} False False True (Some (updatedSetting {''b''})) 2) \<and>
   allowedTypes (filter_ab {''b''} False False True (Some (updatedSetting {''b''})) 2) = {''b''} \<and>
   map selected (typeFilterElements (filter_ab {''b''} False False True (Some (updatedSetting {''b''})) 2))
     = [False, False, True]"
proof -
  let ?s = "filter_ab {''a'', ''b''} False True True (Some [''a'' \<mapsto> True, ''b'' \<mapsto> True]) 1"
  let ?e = "click (filterBit ''a'' ''A'' (- 1) True) True"
  let ?r = "filter_ab {''b''} False False True (Some (updatedSetting {''b''})) 2"
  have n: "new_NamedBitSetFilterUI [item_a, item_b] (Some [''a'' \<mapsto> True, ''b'' \<mapsto> True]) = Inr ?s"
    by (simp add: new_NamedBitSetFilterUI_def addBit_def item_a_def item_b_def allStrings_def
        settingChanged_def update_def filter_ab_def filterBit_def ALL_TYPES_def Let_def
        readTruthy_def objectPrototypeNames_def insert_commute)
  have 1: "1 < length (typeFilterElements ?s)"
    by (simp add: filter_ab_def)
  have 2: "target ?e = Some (typeFilterElements ?s ! 1)"
    by (simp add: filter_ab_def click_def)
  have 3: "setting ?s \<noteq> None \<longrightarrow>
      allowedTypes ?s - {ALL_TYPES} \<subseteq> typeName ` set (typeFilterElements ?s) \<and>
      (\<forall>element \<in> set (typeFilterElements ?s).
         typeName element \<noteq> [] \<and> typeName element \<notin> objectPrototypeNames)"
    by (auto simp: filter_ab_def filterBit_def objectPrototypeNames_def)
  have 4: "setting ?s \<noteq> None"
    by (simp add: filter_ab_def)
  have 5: "list_all (\<lambda>element. typeName element \<noteq> [] \<and> typeName element \<notin> objectPrototypeNames)
     (typeFilterElements ?s)"
    by (simp add: filter_ab_def filterBit_def objectPrototypeNames_def)
  have 6: "multiSelectToggle False ?e"
    by (simp add: multiSelectToggle_def click_def)
  have e: "onTypeFilterClicked False ?e ?s = Inr ?r"
    by (simp add: onTypeFilterClicked_def multiSelectToggle_def click_def toggleTypeFilter_def
        toggledTypes_def Setting_set_def settingChanged_def update_def filter_ab_def filterBit_def
        ALL_TYPES_def Let_def readTruthy_updatedSetting objectPrototypeNames_def
        numeral_2_eq_2)
  from click_selects_or_toggles [OF 1 2 3, of False] obtain s' where
    "onTypeFilterClicked False ?e ?s = Inr s'"
    and d: "dispatched s' = dispatched ?s @ [FILTER_CHANGED]"
    by blast
  with e have "s' = ?r"
    by simp
  with d n 4 5 6 e show ?thesis
    by (simp add: filter_ab_def filterBit_def)
qed

text \<open>
  Why the theorem leaves out type names that \<open>Object.prototype\<close> has: under a setting
  such a name reads as allowed whatever the setting holds. The filter built from the
  items \<open>a\<close> and \<open>constructor\<close> with the empty setting starts with \<open>constructor\<close>
  selected, and a click with the control key on the selected bit of \<open>constructor\<close>
  leaves it selected.
\<close>

lemma inherited_key_stays_selected:
  "new_NamedBitSetFilterUI [item_a, item_ctor] (Some Map.empty)
     = Inr (filter_ctor {''constructor''} False False True (Some Map.empty) 1) \<and>
   onTypeFilterClicked False (click (filterBit ''constructor'' ''Ctor'' (- 1) True) True)
       (filter_ctor {''a'', ''constructor''} False True True (Some (updatedSetting {''a'', ''constructor''})) 2)
     = Inr (filter_ctor {''a'', ''constructor''} False True True (Some (updatedSetting {''a''})) 3)"
proof -
  have t: "toggledTypes ''constructor'' True {''a'', ''constructor''} = {''a''}"
    by (auto simp: toggledTypes_def ALL_TYPES_def Let_def)
  have 1: "new_NamedBitSetFilterUI [item_a, item_ctor] (Some Map.empty)
     = Inr (filter_ctor {''constructor''} False False True (Some Map.empty) 1)"
    by (simp add: new_NamedBitSetFilterUI_def addBit_def item_a_def item_ctor_def allStrings_def
        settingChanged_def update_def filter_ctor_def filterBit_def ALL_TYPES_def Let_def
        readTruthy_def objectPrototypeNames_def)
  have 2: "onTypeFilterClicked False (click (filterBit ''constructor'' ''Ctor'' (- 1) True) True)
       (filter_ctor {''a'', ''constructor''} False True True (Some (updatedSetting {''a'', ''constructor''})) 2)
     = Inr (filter_ctor {''a'', ''constructor''} False True True (Some (updatedSetting {''a''})) 3)"
    by (simp add: onTypeFilterClicked_def multiSelectToggle_def click_def toggleTypeFilter_def t
        Setting_set_def settingChanged_def update_def filter_ctor_def filterBit_def
        ALL_TYPES_def Let_def readTruthy_updatedSetting objectPrototypeNames_def
        numeral_2_eq_2 numeral_3_eq_3 insert_commute)
  from 1 2 show ?thesis ..
qed

text \<open>
  Claim C2 as stated fails. The filter built from the items \<open>a\<close> and \<open>b\<close> without a
  setting has \<open>ALL_TYPES\<close> selected; a plain click on the bit of \<open>a\<close> selects it; a
  second plain click on the same bit leaves it selected: the click does not toggle it.
\<close>

theorem click_toggle_counterexample:
  "new_NamedBitSetFilterUI [item_a, item_b] None
     = Inr (filter_ab {''all''} True False False None 1) \<and>
   onTypeFilterClicked False (click (filterBit ''a'' ''A'' (- 1) False) False)
       (filter_ab {''all''} True False False None 1)
     = Inr (filter_ab {''a''} False True False None 2) \<and>
   selected (typeFilterElements (filter_ab {''a''} False True False None 2) ! 1) \<and>
   onTypeFilterClicked False (click (filterBit ''a'' ''A'' (- 1) True) False)
       (filter_ab {''a''} False True False None 2)
     = Inr (filter_ab {''a''} False True False None 3) \<and>
   selected (typeFilterElements (filter_ab {''a''} False True False None 3) ! 1)"
  by (simp add: new_NamedBitSetFilterUI_def addBit_def item_a_def item_b_def allStrings_def
      onTypeFilterClicked_def multiSelectToggle_def click_def toggleTypeFilter_def
      toggledTypes_def update_def filter_ab_def filterBit_def ALL_TYPES_def Let_def numeral_2_eq_2
      numeral_3_eq_3)

section \<open>Properties of CheckboxFilterUI and TextFilterUI\<close>

text \<open>
  Claim C4. A \<open>CheckboxFilterUI\<close> is active exactly when the checked state of its
  checkbox equals the polarity it was constructed with: built with the polarity \<open>b\<close>
  and put into the checked state \<open>c\<close> it is active if and only if \<open>c = b\<close>; built
  without a polarity it is active if and only if it is unchecked, as with the polarity
  false. This holds whatever label and setting binding the filter was built with, and
  right after construction for the state the checkbox then has; without a setting the
  checkbox starts checked, so the filter is then active exactly when the polarity is true.
\<close>

theorem checkbox_active_iff_polarity:
  "CheckboxFilterUI_isActive
     (setChecked c (new_CheckboxFilterUI create bindCheckbox ttl (Some b) st jslog)) = (c = b) \<and>
   CheckboxFilterUI_isActive
     (setChecked c (new_CheckboxFilterUI create bindCheckbox ttl None st jslog)) = (\<not> c) \<and>
   CheckboxFilterUI_checked
     (setChecked c (new_CheckboxFilterUI create bindCheckbox ttl awc st jslog)) = c \<and>
   CheckboxFilterUI_isActive (new_CheckboxFilterUI create bindCheckbox ttl (Some b) st jslog) =
     (checked (checkbox (new_CheckboxFilterUI create bindCheckbox ttl (Some b) st jslog)) = b) \<and>
   CheckboxFilterUI_isActive (new_CheckboxFilterUI create bindCheckbox ttl None st jslog) =
     (\<not> checked (checkbox (new_CheckboxFilterUI create bindCheckbox ttl None st jslog))) \<and>
   CheckboxFilterUI_checked (new_CheckboxFilterUI create bindCheckbox ttl awc st jslog) =
     checked (checkbox (new_CheckboxFilterUI create bindCheckbox ttl awc st jslog)) \<and>
   checked (checkbox (new_CheckboxFilterUI create bindCheckbox ttl awc None jslog)) \<and>
   checkbox (new_CheckboxFilterUI create bindCheckbox ttl awc (Some v) jslog) =
     bindCheckbox (create ttl None None jslog) v \<and>
   CheckboxFilterUI_isActive (new_CheckboxFilterUI create bindCheckbox ttl (Some b) None jslog) = b \<and>
   \<not> CheckboxFilterUI_isActive (new_CheckboxFilterUI create bindCheckbox ttl None None jslog)"
  by (auto simp: CheckboxFilterUI_isActive_def CheckboxFilterUI_checked_def setChecked_def
      new_CheckboxFilterUI_def Let_def Boolean_def)

text \<open>
  The theorem at filters built with the polarity true: without a setting the filter
  starts checked and active and is inactive once unchecked; bound to a setting whose value
  is false it starts unchecked and inactive.
\<close>

theorem checkbox_active_iff_polarity_witness:
  "CheckboxFilterUI_isActive
     (new_CheckboxFilterUI plainLabel bindToValue ''Hide'' (Some True) None None) \<and>
   \<not> CheckboxFilterUI_isActive
     (setChecked False (new_CheckboxFilterUI plainLabel bindToValue ''Hide'' (Some True) None None)) \<and>
   \<not> CheckboxFilterUI_isActive
     (new_CheckboxFilterUI plainLabel bindToValue ''Hide'' (Some True) (Some False) None) \<and>
   CheckboxFilterUI_isActive
     (setChecked False (new_CheckboxFilterUI plainLabel bindToValue ''Hide'' None None None))"
proof -
  have v: "\<not> checked (bindToValue (plainLabel ''Hide'' None None None) False)"
    by (simp add: bindToValue_def)
  from checkbox_active_iff_polarity
      [of False plainLabel bindToValue "''Hide''" True None None None False]
    checkbox_active_iff_polarity
      [of False plainLabel bindToValue "''Hide''" True "Some False" None "Some True" False] v
  show ?thesis
    by simp
qed

text \<open>
  Claim C8. A \<open>TextFilterUI\<close> whose \<open>suggestionProvider\<close> is null resolves
  \<open>completions\<close> to the empty list of suggestions for every expression, prefix and
  force flag; a freshly constructed filter is in that state.
\<close>

theorem completions_without_provider:
  "(suggestionProvider (f :: 'sg TextFilterUI) = None \<longrightarrow>
      completions f expression prefix force = Resolved []) \<and>
   completions (new_TextFilterUI :: 'sg TextFilterUI) expression prefix force = Resolved []"
  by (simp add: completions_def new_TextFilterUI_def)

text \<open>
  The theorem at a filter whose value was set and that never got a provider.
\<close>

theorem completions_without_provider_witness:
  "suggestionProvider (setValue ''abc'' (new_TextFilterUI :: unit TextFilterUI)) = None \<and>
   completions (setValue ''abc'' (new_TextFilterUI :: unit TextFilterUI)) ''url:'' ''a'' (Some True)
     = Resolved []"
proof -
  have h: "suggestionProvider (setValue ''abc'' (new_TextFilterUI :: unit TextFilterUI)) = None"
    by (simp add: setValue_def valueChanged_def new_TextFilterUI_def)
  from completions_without_provider
    [of "setValue ''abc'' (new_TextFilterUI :: unit TextFilterUI)" "''url:''" "''a''" "Some True"] h
  show ?thesis by simp
qed

section \<open>Properties of FilterBar\<close>
















section \<open>Properties of the INP breakdown insight\<close>

text \<open>
  Claim C7. \<open>createOverlays\<close> and \<open>renderContent\<close> consume the insight model
  read-only: the component they return is the one they were given, so its model, the
  longest interaction event and the timing fields of the event are unchanged.
\<close>

theorem insight_model_read_only:
  "snd (createOverlays i18nString c) = c \<and>
   snd (renderContent i18nString time c) = c \<and>
   model (snd (createOverlays i18nString c)) = model c \<and>
   model (snd (renderContent i18nString time c)) = model c"
proof -
  have 1: "snd (createOverlays i18nString c) = c"
    by (simp add: createOverlays_def split: option.splits)
  have 2: "snd (renderContent i18nString time c) = c"
    by (simp add: renderContent_def split: option.splits)
  from 1 2 show ?thesis by simp
qed

text \<open>
  The theorem at the component holding the interaction that starts at 1000 with the
  delays 20, 300 and 4: after both methods the event is the same.
\<close>

theorem insight_model_read_only_witness:
  "model (snd (createOverlays englishStrings demoComponent))
     = Some \<lparr>longestInteractionEvent =
               Some \<lparr>ts = 1000, inputDelay = 20, mainThreadHandling = 300, presentationDelay = 4\<rparr>,
             highPercentileInteractionEvent = None\<rparr> \<and>
   model (snd (renderContent englishStrings (\<lambda>us. ''ms'') demoComponent))
     = Some \<lparr>longestInteractionEvent =
               Some \<lparr>ts = 1000, inputDelay = 20, mainThreadHandling = 300, presentationDelay = 4\<rparr>,
             highPercentileInteractionEvent = None\<rparr>"
  using insight_model_read_only [of englishStrings demoComponent "\<lambda>us. ''ms''"]
  by (simp add: demoComponent_def demoEvent_def)

text \<open>
  Claim C10. For an interaction event, the overlay built for all subparts is one
  \<open>TIMESPAN_BREAKDOWN\<close> overlay with exactly three sections, contiguous and in order:
  the first spans from \<open>ts\<close> to \<open>ts + inputDelay\<close>, each later one starts at the
  \<open>max\<close> of the one before, and the last ends at
  \<open>ts + inputDelay + mainThreadHandling + presentationDelay\<close>. With the subpart index
  0, 1 or 2 the overlay holds exactly that one section. \<open>createOverlays\<close> builds the
  overlay for all subparts of the longest interaction event of the model.
\<close>

theorem breakdown_sections_contiguous:
  "\<exists>s1 s2 s3.
     createOverlaysForSbupart i18nString event (- 1) =
       [\<lparr>overlayType = ''TIMESPAN_BREAKDOWN'', sections = [Some s1, Some s2, Some s3],
         renderLocation = ''BELOW_EVENT'', entry = event\<rparr>] \<and>
     min_micro (bounds s1) = ts event \<and>
     max_micro (bounds s1) = ts event + inputDelay event \<and>
     min_micro (bounds s2) = max_micro (bounds s1) \<and>
     max_micro (bounds s2) = ts event + inputDelay event + mainThreadHandling event \<and>
     min_micro (bounds s3) = max_micro (bounds s2) \<and>
     max_micro (bounds s3) =
       ts event + inputDelay event + mainThreadHandling event + presentationDelay event \<and>
     map sections (createOverlaysForSbupart i18nString event 0) = [[Some s1]] \<and>
     map sections (createOverlaysForSbupart i18nString event 1) = [[Some s2]] \<and>
     map sections (createOverlaysForSbupart i18nString event 2) = [[Some s3]] \<and>
     (\<forall>c m. model c = Some m \<and> longestInteractionEvent m = Some event \<longrightarrow>
        fst (createOverlays i18nString c) = createOverlaysForSbupart i18nString event (- 1))"
  by (simp add: createOverlaysForSbupart_def createOverlays_def traceWindowFromMicroSeconds_def
      Let_def)

text \<open>
  The theorem at the interaction that starts at 1000 with the delays 20, 300 and 4: the
  sections are 1000 to 1020, 1020 to 1320 and 1320 to 1324.
\<close>

theorem breakdown_sections_contiguous_witness:
  "model demoComponent = Some \<lparr>longestInteractionEvent = Some demoEvent,
                               highPercentileInteractionEvent = None\<rparr> \<and>
   map (map (map_option (\<lambda>s. (min_micro (bounds s), max_micro (bounds s)))) \<circ> sections)
     (fst (createOverlays englishStrings demoComponent))
     = [[Some (1000, 1020), Some (1020, 1320), Some (1320, 1324)]] \<and>
   map (map (map_option (\<lambda>s. (min_micro (bounds s), max_micro (bounds s)))) \<circ> sections)
     (createOverlaysForSbupart englishStrings demoEvent 1)
     = [[Some (1020, 1320)]]"
  using breakdown_sections_contiguous [of englishStrings demoEvent]
  by (simp add: demoComponent_def demoEvent_def createOverlays_def createOverlaysForSbupart_def
      traceWindowFromMicroSeconds_def Let_def)

section \<open>Properties of the polling helpers\<close>

lemma attempt_Suc:
  "attempt timeout fn w (Suc k) = attempt timeout fn (timeout 100 (snd (fn w))) k"
  by (simp add: attempt_def)

lemma falsyResult_fst:
  "falsyResult (fst r) \<Longrightarrow> \<exists>v. fst r = Inr v \<and> \<not> truthy v"
  by (cases "fst r") (simp_all add: falsyResult_def)

lemma triesLoop_stop:
  "\<not> t < n \<Longrightarrow> triesLoop timeout fn n t w tr = (Inr JSUndefined, w, tr)"
  by (subst triesLoop.simps) simp

lemma triesLoop_falsy:
  "t < n \<Longrightarrow> falsyResult (fst (fn w)) \<Longrightarrow>
     triesLoop timeout fn n t w tr =
       triesLoop timeout fn n (t + 1) (timeout 100 (snd (fn w))) (tr @ [CallFn, Timeout 100])"
  by (subst triesLoop.simps) (auto simp: Let_def dest!: falsyResult_fst)

lemma triesLoop_truthy:
  "t < n \<Longrightarrow> fst (fn w) = Inr v \<Longrightarrow> truthy v \<Longrightarrow>
     triesLoop timeout fn n t w tr = (Inr v, snd (fn w), tr @ [CallFn])"
  by (subst triesLoop.simps) (simp add: Let_def)

lemma triesLoop_throws:
  "t < n \<Longrightarrow> fst (fn w) = Inl e \<Longrightarrow>
     triesLoop timeout fn n t w tr = (Inl e, snd (fn w), tr @ [CallFn])"
  by (subst triesLoop.simps) (simp add: Let_def)

text \<open>All attempts falsy: the loop runs out and returns \<open>undefined\<close>.\<close>

lemma triesLoop_exhausted:
  "m = nat (n - t) \<Longrightarrow> \<forall>k < m. falsyResult (attempt timeout fn w k) \<Longrightarrow>
     triesLoop timeout fn n t w tr =
       (Inr JSUndefined, worldBefore timeout fn w m, tr @ rounds m)"
proof (induction m arbitrary: t w tr)
  case 0
  then show ?case by (simp add: triesLoop_stop)
next
  case (Suc m)
  from Suc.prems(1) have lt: "t < n" and m: "m = nat (n - (t + 1))"
    by auto
  from Suc.prems(2) have f0: "falsyResult (fst (fn w))"
    by (auto simp: attempt_def dest: spec [of _ 0])
  have rest: "\<forall>k < m. falsyResult (attempt timeout fn (timeout 100 (snd (fn w))) k)"
    using Suc.prems(2) by (auto simp: attempt_Suc [symmetric])
  show ?case
    using Suc.IH [OF m rest, of "tr @ [CallFn, Timeout 100]"] lt f0
    by (simp add: triesLoop_falsy)
qed

text \<open>The first truthy attempt, within the cap, ends the loop with its result.\<close>

lemma triesLoop_found:
  "k < nat (n - t) \<Longrightarrow> \<forall>j < k. falsyResult (attempt timeout fn w j) \<Longrightarrow>
   attempt timeout fn w k = Inr v \<Longrightarrow> truthy v \<Longrightarrow>
     triesLoop timeout fn n t w tr =
       (Inr v, snd (fn (worldBefore timeout fn w k)), tr @ rounds k @ [CallFn])"
proof (induction k arbitrary: t w tr)
  case 0
  then show ?case
    by (simp add: attempt_def triesLoop_truthy)
next
  case (Suc k)
  from Suc.prems(1) have lt: "t < n" and k: "k < nat (n - (t + 1))"
    by auto
  from Suc.prems(2) have f0: "falsyResult (fst (fn w))"
    by (auto simp: attempt_def dest: spec [of _ 0])
  have rest: "\<forall>j < k. falsyResult (attempt timeout fn (timeout 100 (snd (fn w))) j)"
    using Suc.prems(2) by (auto simp: attempt_Suc [symmetric])
  have a: "attempt timeout fn (timeout 100 (snd (fn w))) k = Inr v"
    using Suc.prems(3) by (simp add: attempt_Suc)
  show ?case
    using Suc.IH [OF k rest a Suc.prems(4), of "tr @ [CallFn, Timeout 100]"] lt f0
    by (simp add: triesLoop_falsy)
qed

text \<open>The shape of every trace: full rounds, then possibly one last call.\<close>

lemma triesLoop_trace:
  "m = nat (n - t) \<Longrightarrow>
     \<exists>k. (snd (snd (triesLoop timeout fn n t w tr)) = tr @ rounds k \<and> k \<le> m) \<or>
         (snd (snd (triesLoop timeout fn n t w tr)) = tr @ rounds k @ [CallFn] \<and> k < m)"
proof (induction m arbitrary: t w tr)
  case 0
  then have "snd (snd (triesLoop timeout fn n t w tr)) = tr @ rounds 0"
    by (simp add: triesLoop_stop)
  then show ?case by blast
next
  case (Suc m)
  from Suc.prems have lt: "t < n" and m: "m = nat (n - (t + 1))"
    by auto
  show ?case
  proof (cases "fst (fn w)")
    case (Inl e)
    then have "snd (snd (triesLoop timeout fn n t w tr)) = tr @ rounds 0 @ [CallFn]"
      using lt by (simp add: triesLoop_throws)
    then show ?thesis by blast
  next
    case (Inr v)
    show ?thesis
    proof (cases "truthy v")
      case True
      then have "snd (snd (triesLoop timeout fn n t w tr)) = tr @ rounds 0 @ [CallFn]"
        using lt Inr by (simp add: triesLoop_truthy)
      then show ?thesis by blast
    next
      case False
      then have f0: "falsyResult (fst (fn w))"
        using Inr by (simp add: falsyResult_def)
      let ?r = "triesLoop timeout fn n (t + 1) (timeout 100 (snd (fn w))) (tr @ [CallFn, Timeout 100])"
      have e: "triesLoop timeout fn n t w tr = ?r"
        using lt f0 by (rule triesLoop_falsy)
      from Suc.IH [OF m, of "timeout 100 (snd (fn w))" "tr @ [CallFn, Timeout 100]"]
      obtain k where
        "(snd (snd ?r) = (tr @ [CallFn, Timeout 100]) @ rounds k \<and> k \<le> m) \<or>
         (snd (snd ?r) = (tr @ [CallFn, Timeout 100]) @ rounds k @ [CallFn] \<and> k < m)"
        by blast
      then have
        "(snd (snd ?r) = tr @ rounds (Suc k) \<and> Suc k \<le> Suc m) \<or>
         (snd (snd ?r) = tr @ rounds (Suc k) @ [CallFn] \<and> Suc k < Suc m)"
        by auto
      then show ?thesis
        unfolding e by blast
    qed
  qed
qed

lemma rounds_calls: "length (filter (\<lambda>a. a = CallFn) (rounds k)) = k"
  by (induction k) simp_all

lemma rounds_actions: "a \<in> set (rounds k) \<Longrightarrow> a = CallFn \<or> a = Timeout 100"
  by (induction k) auto

lemma triesLoop_calls:
  "length (filter (\<lambda>a. a = CallFn) (snd (snd (triesLoop timeout fn n 0 w [])))) \<le> nat n \<and>
   (\<forall>a \<in> set (snd (snd (triesLoop timeout fn n 0 w []))). a = CallFn \<or> a = Timeout 100)"
proof -
  from triesLoop_trace [of "nat n" n 0 timeout fn w "[]"] obtain k where
    "(snd (snd (triesLoop timeout fn n 0 w [])) = rounds k \<and> k \<le> nat n) \<or>
     (snd (snd (triesLoop timeout fn n 0 w [])) = rounds k @ [CallFn] \<and> k < nat n)"
    by auto
  then show ?thesis
    by (auto simp: rounds_calls dest: rounds_actions)
qed


lemma elementOrUndefined_snd: "snd (elementOrUndefined query w) = snd (query w)"
  by (simp add: elementOrUndefined_def Let_def)

lemma elementOrUndefined_falsy:
  "falsyResult (fst (elementOrUndefined query w)) = falsyResult (fst (query w))"
  by (cases "fst (query w)") (simp_all add: elementOrUndefined_def Let_def falsyResult_def)

lemma elementOrUndefined_world:
  "worldBefore timeout (elementOrUndefined query) w k = worldBefore timeout query w k"
  by (induction k arbitrary: w) (simp_all add: elementOrUndefined_snd)

lemma elementOrUndefined_attempt:
  "falsyResult (attempt timeout (elementOrUndefined query) w k) =
     falsyResult (attempt timeout query w k)"
  by (simp add: attempt_def elementOrUndefined_world elementOrUndefined_falsy)

text \<open>
  Claim C5. For a polled function \<open>fn\<close> and an attempt cap \<open>n\<close> given in
  \<open>options.tries\<close> (an integer up to \<open>MAX_SAFE_INTEGER\<close>),
  \<open>waitForFunctionWithTries\<close> returns, calls \<open>fn\<close> at most \<open>n\<close> times and waits only
  with \<open>timeout(100)\<close>; when the first \<open>n\<close> attempts all resolve to falsy values it
  returns \<open>undefined\<close>, not an exception, after \<open>n\<close> rounds of a call and a wait of
  100 ms; when attempt \<open>k < n\<close> is the first to resolve to a truthy value it returns that
  value after \<open>k\<close> such rounds and one more call. Without options the cap is
  \<open>MAX_SAFE_INTEGER\<close>. \<open>waitForWithTries\<close>, which polls an element query this way,
  returns \<open>undefined\<close> when the element is not found in \<open>n\<close> attempts.
\<close>

theorem waitForFunctionWithTries_capped:
  assumes "n \<le> MAX_SAFE_INTEGER"
  shows
    "length (filter (\<lambda>a. a = CallFn)
        (snd (snd (waitForFunctionWithTries timeout fn (Some \<lparr>tries = n\<rparr>) w)))) \<le> nat n \<and>
     (\<forall>a \<in> set (snd (snd (waitForFunctionWithTries timeout fn (Some \<lparr>tries = n\<rparr>) w))).
        a = CallFn \<or> a = Timeout 100) \<and>
     ((\<forall>k < nat n. falsyResult (attempt timeout fn w k)) \<longrightarrow>
        waitForFunctionWithTries timeout fn (Some \<lparr>tries = n\<rparr>) w =
          (Inr JSUndefined, worldBefore timeout fn w (nat n), rounds (nat n))) \<and>
     (k < nat n \<and> (\<forall>j < k. falsyResult (attempt timeout fn w j)) \<and>
      attempt timeout fn w k = Inr v \<and> truthy v \<longrightarrow>
        waitForFunctionWithTries timeout fn (Some \<lparr>tries = n\<rparr>) w =
          (Inr v, snd (fn (worldBefore timeout fn w k)), rounds k @ [CallFn])) \<and>
     waitForFunctionWithTries timeout fn None w =
       waitForFunctionWithTries timeout fn (Some \<lparr>tries = MAX_SAFE_INTEGER\<rparr>) w \<and>
     ((\<forall>k < nat n. falsyResult (attempt timeout fn w k)) \<longrightarrow>
        waitForWithTries timeout fn (Some \<lparr>tries = n\<rparr>) w =
          (Inr JSUndefined, worldBefore timeout fn w (nat n), rounds (nat n)))"
proof -
  have w: "waitForFunctionWithTries timeout fn (Some \<lparr>tries = n\<rparr>) w = triesLoop timeout fn n 0 w []"
    by (simp add: waitForFunctionWithTries_def)
  have 1: "length (filter (\<lambda>a. a = CallFn) (snd (snd (triesLoop timeout fn n 0 w [])))) \<le> nat n"
    using triesLoop_calls [of timeout fn n w] by blast
  have 2: "\<forall>a \<in> set (snd (snd (triesLoop timeout fn n 0 w []))). a = CallFn \<or> a = Timeout 100"
    using triesLoop_calls [of timeout fn n w] by blast
  have 3: "triesLoop timeout fn n 0 w [] =
      (Inr JSUndefined, worldBefore timeout fn w (nat n), rounds (nat n))"
    if "\<forall>k < nat n. falsyResult (attempt timeout fn w k)"
    using triesLoop_exhausted [of "nat n" n 0 timeout fn w "[]"] that by simp
  have 4: "triesLoop timeout fn n 0 w [] =
      (Inr v, snd (fn (worldBefore timeout fn w k)), rounds k @ [CallFn])"
    if "k < nat n" "\<forall>j < k. falsyResult (attempt timeout fn w j)"
      "attempt timeout fn w k = Inr v" "truthy v"
    using triesLoop_found [of k n 0 timeout fn w v "[]"] that by simp
  have 5: "waitForFunctionWithTries timeout fn None w =
       waitForFunctionWithTries timeout fn (Some \<lparr>tries = MAX_SAFE_INTEGER\<rparr>) w"
    by (simp add: waitForFunctionWithTries_def)
  have 6: "waitForWithTries timeout fn (Some \<lparr>tries = n\<rparr>) w =
      (Inr JSUndefined, worldBefore timeout fn w (nat n), rounds (nat n))"
    if "\<forall>k < nat n. falsyResult (attempt timeout fn w k)"
  proof -
    from that have "\<forall>k < nat n. falsyResult (attempt timeout (elementOrUndefined fn) w k)"
      by (simp add: elementOrUndefined_attempt)
    then have "triesLoop timeout (elementOrUndefined fn) n 0 w [] =
        (Inr JSUndefined, worldBefore timeout (elementOrUndefined fn) w (nat n), rounds (nat n))"
      using triesLoop_exhausted [of "nat n" n 0 timeout "elementOrUndefined fn" w "[]"] by simp
    then show ?thesis
      by (simp add: waitForWithTries_def waitForFunctionWithTries_def elementOrUndefined_world)
  qed
  from 1 2 3 4 5 6 show ?thesis
    unfolding w by blast
qed

text \<open>
  The theorem at the page where the element appears at the third poll: with a cap of 5
  the handle comes back after two rounds and a third call; with a cap of 2 the result is
  \<open>undefined\<close> after two rounds.
\<close>

theorem waitForFunctionWithTries_capped_witness:
  "(5::int) \<le> MAX_SAFE_INTEGER \<and>
   waitForFunctionWithTries noWait thirdPoll (Some \<lparr>tries = 5\<rparr>) 0 =
     (Inr (JSObject 7), 3, [CallFn, Timeout 100, CallFn, Timeout 100, CallFn]) \<and>
   waitForFunctionWithTries noWait thirdPoll (Some \<lparr>tries = 2\<rparr>) 0 =
     (Inr JSUndefined, 2, [CallFn, Timeout 100, CallFn, Timeout 100]) \<and>
   waitForWithTries noWait thirdPoll (Some \<lparr>tries = 2\<rparr>) 0 =
     (Inr JSUndefined, 2, [CallFn, Timeout 100, CallFn, Timeout 100])"
proof -
  have a: "attempt noWait thirdPoll 0 0 = Inr JSNull" "attempt noWait thirdPoll 0 1 = Inr JSNull"
    "attempt noWait thirdPoll 0 2 = Inr (JSObject 7)"
    by (simp_all add: attempt_def thirdPoll_def noWait_def eval_nat_numeral)
  have wb: "worldBefore noWait thirdPoll 0 2 = 2"
    by (simp add: thirdPoll_def noWait_def eval_nat_numeral)
  have r: "rounds 2 = [CallFn, Timeout 100, CallFn, Timeout 100]"
    by (simp add: eval_nat_numeral)
  have f: "\<forall>j < 2. falsyResult (attempt noWait thirdPoll 0 j)"
  proof (intro allI impI)
    fix j :: nat
    assume "j < 2"
    then have "j = 0 \<or> j = 1" by auto
    then show "falsyResult (attempt noWait thirdPoll 0 j)"
      using a by (auto simp: falsyResult_def)
  qed
  have m5: "(5::int) \<le> MAX_SAFE_INTEGER" and m2: "(2::int) \<le> MAX_SAFE_INTEGER"
    by (simp_all add: MAX_SAFE_INTEGER_def)
  have found: "waitForFunctionWithTries noWait thirdPoll (Some \<lparr>tries = 5\<rparr>) 0 =
     (Inr (JSObject 7), snd (thirdPoll (worldBefore noWait thirdPoll 0 2)), rounds 2 @ [CallFn])"
    using waitForFunctionWithTries_capped [OF m5, of noWait thirdPoll 0 2 "JSObject 7"] f a
    by simp
  have exhausted: "waitForFunctionWithTries noWait thirdPoll (Some \<lparr>tries = 2\<rparr>) 0 =
     (Inr JSUndefined, worldBefore noWait thirdPoll 0 2, rounds 2)"
    using waitForFunctionWithTries_capped [OF m2, of noWait thirdPoll 0 0 JSUndefined] f
    by simp
  have notFound: "waitForWithTries noWait thirdPoll (Some \<lparr>tries = 2\<rparr>) 0 =
     (Inr JSUndefined, worldBefore noWait thirdPoll 0 2, rounds 2)"
    using waitForFunctionWithTries_capped [OF m2, of noWait thirdPoll 0 0 JSUndefined] f
    by simp
  from found exhausted notFound m5 show ?thesis
    by (simp add: wb r thirdPoll_def)
qed

end
